theory Spec2Isabelle
  imports Main
begin

section \<open>Data model\<close>

text \<open>
  The negotiation engine of \<^verbatim>\<open>src/win32/kerberos_sspi.cc\<close>. The engine is C code over the
  Windows security provider (SSPI), the Windows string codec and the C heap. None of the three
  is part of the repository, so the model takes them as a parameter \<open>env\<close> (a record of
  functions, one per call the engine makes) and records every call in a log, in call order.

  \<^item> \<open>SEC_CHAR\<close> is the C \<open>char\<close>, an 8-bit byte: HOL's \<open>char\<close>. A buffer of bytes and a
    C string (its characters before the terminating NUL) are both \<open>char list\<close>.
  \<^item> A pointer to a heap block is the block's address paired with its contents, and \<open>None\<close>
    is the null pointer. Every block of the engine has one owner, so no claim depends on aliasing.
  \<^item> \<open>ULONG\<close>/\<open>DWORD\<close> values are naturals; the 32-bit wrap-around is written out where
    the code adds sizes.
\<close>

type_synonym addr = nat
type_synonym SecHandle = nat
type_synonym SECURITY_STATUS = int
type_synonym 'a ptr = "(addr \<times> 'a) option"

definition SEC_E_OK :: SECURITY_STATUS where
  "SEC_E_OK = 0"

definition SEC_I_CONTINUE_NEEDED :: SECURITY_STATUS where
  "SEC_I_CONTINUE_NEEDED = 0x00090312"

definition SECQOP_WRAP_NO_ENCRYPT :: nat where
  "SECQOP_WRAP_NO_ENCRYPT = 0x80000001"

text \<open>
  Modelled from the spec: the header \<^verbatim>\<open>kerberos_sspi.h\<close>, which declares the result codes
  \<open>AUTH_GSS_ERROR\<close>, \<open>AUTH_GSS_CONTINUE\<close> and \<open>AUTH_GSS_COMPLETE\<close>, the result structure and
  the two state structures, is not among the sources. The three codes are the three tags of the
  spec's Result (Error, Continue, Complete); the fields of the structures are the ones the code
  reads and writes.
\<close>

datatype gss_code = AUTH_GSS_ERROR | AUTH_GSS_CONTINUE | AUTH_GSS_COMPLETE

record sspi_result =
  code :: gss_code
  message :: "string option"

text \<open>A local variable of a C function: \<open>Uninit\<close> until the function assigns it.\<close>

datatype 'a local = Uninit | Val 'a

text \<open>
  The identity structure that \<open>auth_sspi_client_init\<close> fills for the provider
  (\<open>SEC_WINNT_AUTH_IDENTITY_W\<close>; its fields carry the prefix \<open>id\<close>). It is a local of the
  function: a field the function does not assign is handed to the provider unassigned.
\<close>

record auth_identity =
  idUser :: "string local"
  idUserLength :: "nat local"
  idPassword :: "string local"
  idPasswordLength :: "nat local"
  idDomain :: "string local"
  idDomainLength :: "nat local"
  idFlags :: "nat local"

definition SEC_WINNT_AUTH_IDENTITY_UNICODE :: nat where
  "SEC_WINNT_AUTH_IDENTITY_UNICODE = 2"

text \<open>
  The input buffers handed to \<open>InitializeSecurityContextW\<close>, and the calls the engine makes to
  the provider, the codec and the heap. \<open>Ev_DecryptMessage\<close> carries the value that
  \<open>state->qop\<close> holds when the call is made (the call receives \<open>&state->qop\<close>), and
  \<open>Ev_EncryptMessage\<close> the three regions of the working buffer: trailer, data, padding.
\<close>

datatype SecBuffer = SECBUFFER_CHANNEL_BINDINGS "char list" | SECBUFFER_TOKEN "char list"

datatype event =
    Ev_malloc addr nat
  | Ev_malloc_failed nat
  | Ev_free addr
  | Ev_DeleteSecurityContext SecHandle
  | Ev_FreeCredentialsHandle SecHandle
  | Ev_AcquireCredentialsHandleW string "auth_identity option"
  | Ev_FreeContextBuffer string
  | Ev_CryptBinaryToStringA "char list"
  | Ev_CryptStringToBinaryA "string option"
  | Ev_InitializeSecurityContextW SecHandle "SecHandle option" "SecBuffer list"
  | Ev_AcceptSecurityContext "SecHandle option" "SecHandle option" "char list"
  | Ev_QueryContextAttributesW "SecHandle option"
  | Ev_QuerySecurityPackageInfoW
  | Ev_ImpersonateSecurityContext "SecHandle option"
  | Ev_RevertSecurityContext "SecHandle option"
  | Ev_GetUserName
  | Ev_WideCharToMultiByte
  | Ev_DecryptMessage SecHandle "char list" nat
  | Ev_EncryptMessage SecHandle nat "char list" "char list" "char list"

text \<open>
  A call of the security provider: the capabilities of the provider facade (credentials, context
  steps, attribute and size queries, impersonation, message protection, release of handles and of
  provider-owned buffers). The codec and the C heap are not the provider.
\<close>

fun is_provider_call :: "event \<Rightarrow> bool" where
  "is_provider_call (Ev_malloc a n) = False"
| "is_provider_call (Ev_malloc_failed n) = False"
| "is_provider_call (Ev_free a) = False"
| "is_provider_call (Ev_CryptBinaryToStringA v) = False"
| "is_provider_call (Ev_CryptStringToBinaryA v) = False"
| "is_provider_call (Ev_WideCharToMultiByte) = False"
| "is_provider_call (Ev_GetUserName) = False"
| "is_provider_call e = True"

record world =
  log :: "event list"
  allocs :: nat

definition emit :: "event \<Rightarrow> world \<Rightarrow> world" where
  "emit e w = w\<lparr>log := log w @ [e]\<rparr>"

record isc_result =
  isc_status :: SECURITY_STATUS
  isc_ctx :: SecHandle
  isc_out :: "char list option"

record asc_result =
  asc_status :: SECURITY_STATUS
  asc_ctx :: "SecHandle option"
  asc_out :: "char list"

text \<open>
  The platform. \<open>malloc_ok i n\<close> says whether the \<open>i\<close>-th allocation of the run, of \<open>n\<close>
  bytes, succeeds; \<open>heap_junk\<close> is what a fresh block holds and \<open>stack_junk\<close> what an
  unassigned pointer variable holds. A codec or query function that fails returns \<open>None\<close>;
  the provider's steps return their status with what they wrote through their out parameters.
  The output token of \<open>InitializeSecurityContextW\<close> is provider-allocated
  (\<open>ISC_REQ_ALLOCATE_MEMORY\<close>): \<open>None\<close> is a null \<open>pvBuffer\<close> with \<open>cbBuffer = 0\<close>, and
  \<open>Some bs\<close> a block holding \<open>bs\<close> with \<open>cbBuffer = length bs\<close>.
\<close>

record env =
  malloc_ok :: "nat \<Rightarrow> nat \<Rightarrow> bool"
  heap_junk :: "nat \<Rightarrow> char"
  stack_junk :: addr
  CryptBinaryToStringA_len :: "char list \<Rightarrow> nat option"
  CryptBinaryToStringA :: "char list \<Rightarrow> nat \<Rightarrow> string option"
  CryptStringToBinaryA_len :: "string option \<Rightarrow> nat option"
  CryptStringToBinaryA :: "string option \<Rightarrow> nat \<Rightarrow> char list option"
  WideCharToMultiByte_len :: "string \<Rightarrow> nat"
  WideCharToMultiByte :: "string \<Rightarrow> nat \<Rightarrow> string option"
  FormatMessageA :: "SECURITY_STATUS \<Rightarrow> string option"
  AcquireCredentialsHandleW ::
    "string \<Rightarrow> auth_identity option \<Rightarrow> SECURITY_STATUS \<times> SecHandle"
  InitializeSecurityContextW ::
    "SecHandle \<Rightarrow> SecHandle option \<Rightarrow> string ptr \<Rightarrow> nat \<Rightarrow> SecBuffer list \<Rightarrow> isc_result"
  AcceptSecurityContext ::
    "SecHandle option \<Rightarrow> SecHandle option \<Rightarrow> char list \<Rightarrow> nat \<Rightarrow> asc_result"
  QueryContextAttributesW_NAMES :: "SecHandle \<Rightarrow> SECURITY_STATUS \<times> string"
  QueryContextAttributesW_NATIVE_NAMES :: "SecHandle option \<Rightarrow> SECURITY_STATUS \<times> string"
  QueryContextAttributes_SIZES :: "SecHandle \<Rightarrow> SECURITY_STATUS \<times> nat \<times> nat"
  QuerySecurityPackageInfoW :: "(SECURITY_STATUS \<times> nat)"
  ImpersonateSecurityContext :: "SecHandle option \<Rightarrow> SECURITY_STATUS"
  GetUserName_len :: nat
  GetUserName :: "nat \<Rightarrow> string option"
  DecryptMessage :: "SecHandle \<Rightarrow> char list \<Rightarrow> nat \<Rightarrow> SECURITY_STATUS \<times> char list \<times> nat"
  EncryptMessage ::
    "SecHandle \<Rightarrow> nat \<Rightarrow> char list \<Rightarrow> char list \<Rightarrow> char list
      \<Rightarrow> SECURITY_STATUS \<times> char list \<times> char list \<times> char list"

text \<open>
  The client state. \<open>haveCtx\<close>, \<open>haveCred\<close> and \<open>context_complete\<close> are C truth values
  (the code stores 0/1 and \<open>FALSE\<close>/\<open>TRUE\<close> and tests them for non-zero).
\<close>

record sspi_client_state =
  cred :: SecHandle
  ctx :: SecHandle
  spn :: "string ptr"
  response :: "string ptr"
  username :: "string ptr"
  flags :: nat
  haveCred :: bool
  haveCtx :: bool
  qop :: nat
  responseConf :: int
  context_complete :: bool

text \<open>
  The server state; its fields carry the prefix \<open>s\<close> (a HOL field name belongs to one record).
  A server handle is \<open>None\<close> when invalidated (\<open>SecInvalidateHandle\<close>) and \<open>SecIsValidHandle\<close>
  is the test for \<open>Some\<close>.
\<close>

record sspi_server_state =
  sctx :: "SecHandle option"
  scred :: "SecHandle option"
  sresponse :: "string ptr"
  susername :: "string ptr"
  scontext_complete :: bool
  targetname :: "string ptr"

section \<open>The C heap\<close>

text \<open>
  \<open>malloc\<close> returns a fresh non-null address, or 0 when the allocation fails; \<open>free\<close> is
  recorded in the log, where a block freed twice or never allocated can be read off.
\<close>

definition malloc :: "env \<Rightarrow> nat \<Rightarrow> world \<Rightarrow> addr \<times> world" where
  "malloc e n w =
     (if malloc_ok e (allocs w) n
      then (Suc (allocs w),
            w\<lparr>log := log w @ [Ev_malloc (Suc (allocs w)) n], allocs := Suc (allocs w)\<rparr>)
      else (0, w\<lparr>log := log w @ [Ev_malloc_failed n], allocs := Suc (allocs w)\<rparr>))"

definition free :: "addr \<Rightarrow> world \<Rightarrow> world" where
  "free a w = emit (Ev_free a) w"

definition fresh_bytes :: "env \<Rightarrow> nat \<Rightarrow> char list" where
  "fresh_bytes e n = map (heap_junk e) [0..<n]"

definition allocated :: "event list \<Rightarrow> addr \<Rightarrow> bool" where
  "allocated evs a = list_ex (\<lambda>ev. case ev of Ev_malloc b n \<Rightarrow> b = a | _ \<Rightarrow> False) evs"

definition times_freed :: "event list \<Rightarrow> addr \<Rightarrow> nat" where
  "times_freed evs a = length (filter (\<lambda>ev. ev = Ev_free a) evs)"

section \<open>Release of a context\<close>

definition auth_sspi_client_clean :: "world \<Rightarrow> sspi_client_state \<Rightarrow> world \<times> sspi_client_state" where
  "auth_sspi_client_clean w0 state0 =
     (let (w1, state1) =
            (if haveCtx state0
             then (emit (Ev_DeleteSecurityContext (ctx state0)) w0, state0\<lparr>haveCtx := False\<rparr>)
             else (w0, state0));
          (w2, state2) =
            (if haveCred state1
             then (emit (Ev_FreeCredentialsHandle (cred state1)) w1, state1\<lparr>haveCred := False\<rparr>)
             else (w1, state1));
          (w3, state3) =
            (case spn state2 of
               Some (a, s) \<Rightarrow> (free a w2, state2\<lparr>spn := None\<rparr>)
             | None \<Rightarrow> (w2, state2));
          (w4, state4) =
            (case response state3 of
               Some (a, s) \<Rightarrow> (free a w3, state3\<lparr>response := None\<rparr>)
             | None \<Rightarrow> (w3, state3));
          (w5, state5) =
            (case username state4 of
               Some (a, s) \<Rightarrow> (free a w4, state4\<lparr>username := None\<rparr>)
             | None \<Rightarrow> (w4, state4))
      in (w5, state5))"

definition auth_sspi_server_clean :: "world \<Rightarrow> sspi_server_state \<Rightarrow> world \<times> sspi_server_state" where
  "auth_sspi_server_clean w0 state0 =
     (let (w1, state1) =
            (case sctx state0 of
               Some h \<Rightarrow> (emit (Ev_DeleteSecurityContext h) w0, state0\<lparr>sctx := None\<rparr>)
             | None \<Rightarrow> (w0, state0));
          (w2, state2) =
            (case scred state1 of
               Some h \<Rightarrow> (emit (Ev_FreeCredentialsHandle h) w1, state1\<lparr>scred := None\<rparr>)
             | None \<Rightarrow> (w1, state1));
          (w3, state3) =
            (case sresponse state2 of
               Some (a, s) \<Rightarrow> (free a w2, state2\<lparr>sresponse := None\<rparr>)
             | None \<Rightarrow> (w2, state2));
          (w4, state4) =
            (case susername state3 of
               Some (a, s) \<Rightarrow> (free a w3, state3\<lparr>susername := None\<rparr>)
             | None \<Rightarrow> (w3, state3));
          (w5, state5) =
            (case targetname state4 of
               Some (a, s) \<Rightarrow> (free a w4, state4\<lparr>targetname := None\<rparr>)
             | None \<Rightarrow> (w4, state4))
      in (w5, state5))"


section \<open>Results\<close>

text \<open>
  The three constructors of a result. The result object goes to the caller, who owns it; its
  allocation is not part of the log.
\<close>

definition sspi_success_result :: "gss_code \<Rightarrow> sspi_result" where
  "sspi_success_result ret = \<lparr>code = ret, message = None\<rparr>"

definition sspi_error_result :: "env \<Rightarrow> SECURITY_STATUS \<Rightarrow> string \<Rightarrow> sspi_result" where
  "sspi_error_result e errCode msg =
     \<lparr>code = AUTH_GSS_ERROR,
      message = Some (case FormatMessageA e errCode of
                        Some err \<Rightarrow> msg @ '': '' @ err
                      | None \<Rightarrow> msg)\<rparr>"

definition sspi_error_result_with_message :: "string \<Rightarrow> sspi_result" where
  "sspi_error_result_with_message msg = \<lparr>code = AUTH_GSS_ERROR, message = Some msg\<rparr>"

section \<open>Token codec and name conversion\<close>

text \<open>
  \<open>base64_encode\<close> and \<open>base64_decode\<close> ask the platform for the size, allocate, and call
  the platform again to fill the block; a null result is failure. \<open>base64_decode\<close> passes its
  argument on as it is, null included.
\<close>

definition base64_encode :: "env \<Rightarrow> char list \<Rightarrow> world \<Rightarrow> string ptr \<times> world" where
  "base64_encode e val w0 =
     (let w1 = emit (Ev_CryptBinaryToStringA val) w0 in
      case CryptBinaryToStringA_len e val of
        None \<Rightarrow> (None, w1)
      | Some len \<Rightarrow>
          (let (out, w2) = malloc e len w1 in
           if out \<noteq> 0 then
             (let w3 = emit (Ev_CryptBinaryToStringA val) w2 in
              case CryptBinaryToStringA e val len of
                Some s \<Rightarrow> (Some (out, s), w3)
              | None \<Rightarrow> (None, free out w3))
           else (None, w2)))"

definition base64_decode :: "env \<Rightarrow> string option \<Rightarrow> world \<Rightarrow> char list ptr \<times> world" where
  "base64_decode e val w0 =
     (let w1 = emit (Ev_CryptStringToBinaryA val) w0 in
      case CryptStringToBinaryA_len e val of
        None \<Rightarrow> (None, w1)
      | Some rlen \<Rightarrow>
          (let (out, w2) = malloc e rlen w1 in
           if out \<noteq> 0 then
             (let w3 = emit (Ev_CryptStringToBinaryA val) w2 in
              case CryptStringToBinaryA e val rlen of
                Some bs \<Rightarrow> (Some (out, bs), w3)
              | None \<Rightarrow> (None, free out w3))
           else (None, w2)))"

definition wide_to_utf8 :: "env \<Rightarrow> string \<Rightarrow> world \<Rightarrow> string ptr \<times> world" where
  "wide_to_utf8 e val w0 =
     (let w1 = emit Ev_WideCharToMultiByte w0;
          len = WideCharToMultiByte_len e val
      in if len \<noteq> 0 then
           (let (out, w2) = malloc e len w1 in
            if out = 0 then (None, w2)
            else
              (let w3 = emit Ev_WideCharToMultiByte w2 in
               case WideCharToMultiByte e val len of
                 Some s \<Rightarrow> (Some (out, s), w3)
               | None \<Rightarrow> (None, free out w3)))
         else (None, w1))"

section \<open>Client initialisation\<close>

text \<open>
  \<open>auth_sspi_client_init\<close> resets the context, copies the service name and acquires the
  outbound credential. \<open>authIdentity\<close> is a local without an initial value. When \<open>user\<close> is
  empty the provider is handed a null identity. Otherwise the function assigns the user with
  \<open>ulen\<close> and the flags, the password with \<open>plen\<close> only when \<open>password\<close> is not empty, and
  the domain with \<open>dlen\<close> only when \<open>domain\<close> is not empty; what it does not assign the
  provider receives unassigned.
\<close>

definition auth_sspi_client_init ::
  "env \<Rightarrow> world \<Rightarrow> string \<Rightarrow> nat \<Rightarrow> string \<Rightarrow> nat \<Rightarrow> string \<Rightarrow> nat \<Rightarrow> string \<Rightarrow> nat \<Rightarrow> string
    \<Rightarrow> sspi_client_state \<Rightarrow> world \<times> sspi_client_state \<times> sspi_result" where
  "auth_sspi_client_init e w0 service fl user ulen domain dlen password plen mechoid state0 =
     (let state1 = state0\<lparr>response := None, username := None, qop := SECQOP_WRAP_NO_ENCRYPT,
                           flags := fl, haveCred := False, haveCtx := False\<rparr>;
          (a, w1) = malloc e (2 * Suc (length service)) w0;
          state2 = state1\<lparr>spn := (if a = 0 then None else Some (a, service))\<rparr>
      in if spn state2 = None
         then (w1, state2, sspi_error_result_with_message ''Ran out of memory assigning service'')
         else
           (let authIdentity0 =
                  \<lparr>idUser = Uninit, idUserLength = Uninit, idPassword = Uninit,
                   idPasswordLength = Uninit, idDomain = Uninit, idDomainLength = Uninit,
                   idFlags = Uninit\<rparr>;
                authIdentity1 =
                  (if user \<noteq> [] then
                     (let i1 = authIdentity0\<lparr>idUser := Val user, idUserLength := Val ulen\<rparr>;
                          i2 = (if password \<noteq> []
                                then i1\<lparr>idPassword := Val password, idPasswordLength := Val plen\<rparr>
                                else i1);
                          i3 = (if domain \<noteq> []
                                then i2\<lparr>idDomain := Val domain, idDomainLength := Val dlen\<rparr>
                                else i2)
                      in i3\<lparr>idFlags := Val SEC_WINNT_AUTH_IDENTITY_UNICODE\<rparr>)
                   else authIdentity0);
                pAuthData = (if user \<noteq> [] then Some authIdentity1 else None);
                w2 = emit (Ev_AcquireCredentialsHandleW mechoid pAuthData) w1;
                (status, h) = AcquireCredentialsHandleW e mechoid pAuthData;
                state3 = state2\<lparr>cred := h\<rparr>
            in if status \<noteq> SEC_E_OK
               then (w2, state3, sspi_error_result e status ''AcquireCredentialsHandle'')
               else (w2, state3\<lparr>haveCred := True\<rparr>, sspi_success_result AUTH_GSS_COMPLETE)))"

section \<open>Client step\<close>

text \<open>
  The label \<open>done\<close>: the decoded challenge is freed when \<open>haveToken\<close> is set (that is, when
  it was decoded), the provider's output block when its pointer is not null.
\<close>

definition client_step_done :: "world \<Rightarrow> char list ptr \<Rightarrow> char list option \<Rightarrow> world" where
  "client_step_done w0 token out =
     (let w1 = (case token of Some (a, bs) \<Rightarrow> free a w0 | None \<Rightarrow> w0);
          w2 = (case out of
                  Some bs \<Rightarrow> emit (Ev_FreeContextBuffer ''outBufs[0].pvBuffer'') w1
                | None \<Rightarrow> w1)
      in w2)"

text \<open>Lines 264 to 285: the name query on \<open>SEC_E_OK\<close>, the continue result otherwise.\<close>

definition client_step_names ::
  "env \<Rightarrow> world \<Rightarrow> sspi_client_state \<Rightarrow> SECURITY_STATUS
    \<Rightarrow> world \<times> sspi_client_state \<times> sspi_result local" where
  "client_step_names e w0 state0 status =
     (if status = SEC_E_OK then
        (let w1 = emit (Ev_QueryContextAttributesW (Some (ctx state0))) w0;
             (status1, sUserName) = QueryContextAttributesW_NAMES e (ctx state0)
         in if status1 \<noteq> SEC_E_OK
            then (w1, state0, Val (sspi_error_result e status1 ''QueryContextAttributesW''))
            else
              (let (u, w2) = wide_to_utf8 e sUserName w1;
                   state1 = state0\<lparr>username := u\<rparr>
               in if u = None
                  then (w2, state1,
                        Val (sspi_error_result_with_message ''Unable to allocate memory for username''))
                  else (emit (Ev_FreeContextBuffer ''names.sUserName'') w2, state1,
                        Val (sspi_success_result AUTH_GSS_COMPLETE))))
      else (w0, state0, Val (sspi_success_result AUTH_GSS_CONTINUE)))"

text \<open>
  Lines 217 to 294: the call of \<open>InitializeSecurityContextW\<close> and what follows. \<open>result\<close> is
  a local that the function declares without a value; the path on which encoding the output
  token fails stores into \<open>status\<close> and jumps to \<open>done\<close>, so \<open>result\<close> is returned as it was.
\<close>

definition client_step_call ::
  "env \<Rightarrow> world \<Rightarrow> sspi_client_state \<Rightarrow> SecBuffer list \<Rightarrow> char list ptr
    \<Rightarrow> world \<times> sspi_client_state \<times> sspi_result local" where
  "client_step_call e w0 state0 inBufs token =
     (let existing = (if haveCtx state0 then Some (ctx state0) else None);
          w1 = emit (Ev_InitializeSecurityContextW (cred state0) existing inBufs) w0;
          r = InitializeSecurityContextW e (cred state0) existing (spn state0) (flags state0) inBufs;
          state1 = state0\<lparr>ctx := isc_ctx r\<rparr>;
          status = isc_status r;
          cb = (case isc_out r of Some bs \<Rightarrow> bs | None \<Rightarrow> [])
      in if status \<noteq> SEC_E_OK \<and> status \<noteq> SEC_I_CONTINUE_NEEDED
         then (client_step_done w1 token (isc_out r), state1,
               Val (sspi_error_result e status ''InitializeSecurityContext''))
         else
           (let state2 = state1\<lparr>haveCtx := True, context_complete := True\<rparr>;
                (w2, state3) =
                  (if cb \<noteq> []
                   then (let (p, w) = base64_encode e cb w1 in (w, state2\<lparr>response := p\<rparr>))
                   else (w1, state2))
            in if cb \<noteq> [] \<and> response state3 = None
               then (client_step_done w2 token (isc_out r), state3, Uninit)
               else
                 (let (w3, state4, result) = client_step_names e w2 state3 status
                  in (client_step_done w3 token (isc_out r), state4, result))))"

definition auth_sspi_client_step ::
  "env \<Rightarrow> world \<Rightarrow> sspi_client_state \<Rightarrow> string option \<Rightarrow> char list option
    \<Rightarrow> world \<times> sspi_client_state \<times> sspi_result local" where
  "auth_sspi_client_step e w0 state0 challenge sec_pkg_context_bindings =
     (let (w1, state1) =
            (case response state0 of
               Some (a, s) \<Rightarrow> (free a w0, state0\<lparr>response := None\<rparr>)
             | None \<Rightarrow> (w0, state0));
          inBufs = (case sec_pkg_context_bindings of
                      Some b \<Rightarrow> [SECBUFFER_CHANNEL_BINDINGS b]
                    | None \<Rightarrow> [])
      in if haveCtx state1 then
           (case base64_decode e challenge w1 of
              (None, w2) \<Rightarrow>
                (w2, state1, Val (sspi_error_result_with_message ''Unable to base64 decode pvBuffer''))
            | (Some tok, w2) \<Rightarrow>
                client_step_call e w2 state1 (inBufs @ [SECBUFFER_TOKEN (snd tok)]) (Some tok))
         else client_step_call e w1 state1 inBufs None)"

section \<open>Server step\<close>

text \<open>
  The label \<open>end\<close>: both buffer pointers are tested and freed when not null. \<open>OutSecBuff\<close> is
  a local without an initial value; read before its assignment it holds what the stack held.
\<close>

definition server_step_end :: "env \<Rightarrow> world \<Rightarrow> char list ptr \<Rightarrow> addr local \<Rightarrow> world" where
  "server_step_end e w0 InSecBuff OutSecBuff =
     (let w1 = (case InSecBuff of Some (a, bs) \<Rightarrow> free a w0 | None \<Rightarrow> w0);
          p = (case OutSecBuff of Uninit \<Rightarrow> stack_junk e | Val a \<Rightarrow> a);
          w2 = (if p \<noteq> 0 then free p w1 else w1)
      in w2)"

text \<open>Lines 375 to 417: the context is complete; the name of the peer is looked up.\<close>

definition server_step_names ::
  "env \<Rightarrow> world \<Rightarrow> sspi_server_state \<Rightarrow> world \<times> sspi_server_state \<times> sspi_result" where
  "server_step_names e w0 state0 =
     (let state1 = state0\<lparr>scontext_complete := True\<rparr>;
          w1 = emit (Ev_QueryContextAttributesW (sctx state1)) w0;
          (ss, sClientName) = QueryContextAttributesW_NATIVE_NAMES e (sctx state1)
      in if ss = SEC_E_OK then
           (let (u, w2) = wide_to_utf8 e sClientName w1;
                w3 = emit (Ev_FreeContextBuffer ''names.sClientName'') w2;
                state2 = state1\<lparr>susername := u\<rparr>
            in if u = None
               then (w3, state2,
                     sspi_error_result_with_message ''Unable to allocate memory for username'')
               else (w3, state2, sspi_success_result AUTH_GSS_COMPLETE))
         else
           (let w2 = emit (Ev_ImpersonateSecurityContext (sctx state1)) w1;
                ss2 = ImpersonateSecurityContext e (sctx state1)
            in if ss2 = SEC_E_OK then
                 (let w3 = emit Ev_GetUserName w2;
                      cbUserName = GetUserName_len e;
                      (p, w4) = malloc e cbUserName w3
                  in if p = 0
                     then (w4, state1\<lparr>susername := None\<rparr>,
                           sspi_error_result_with_message ''Unable to allocate memory for username'')
                     else
                       (let w5 = emit Ev_GetUserName w4 in
                        case GetUserName e cbUserName of
                          None \<Rightarrow>
                            (w5, state1\<lparr>susername := Some (p, fresh_bytes e cbUserName)\<rparr>,
                             sspi_error_result_with_message ''Unable to obtain username'')
                        | Some name \<Rightarrow>
                            (emit (Ev_RevertSecurityContext (sctx state1)) w5,
                             state1\<lparr>susername := Some (p, name)\<rparr>,
                             sspi_success_result AUTH_GSS_COMPLETE)))
               else (w2, state1, sspi_error_result_with_message ''Unable to obtain username'')))"

text \<open>Lines 345 to 448: sizing, the output buffer, \<open>AcceptSecurityContext\<close>, and \<open>end\<close>.\<close>

definition server_step_accept ::
  "env \<Rightarrow> world \<Rightarrow> sspi_server_state \<Rightarrow> addr \<times> char list
    \<Rightarrow> world \<times> sspi_server_state \<times> sspi_result" where
  "server_step_accept e w0 state0 InSecBuff =
     (let w1 = emit Ev_QuerySecurityPackageInfoW w0;
          (qs, cbMaxToken) = QuerySecurityPackageInfoW e
      in if qs \<noteq> SEC_E_OK
         then (server_step_end e w1 (Some InSecBuff) Uninit, state0,
               sspi_error_result_with_message ''Unable to get max token size for output buffer'')
         else
           (let (out, w2) = malloc e cbMaxToken w1 in
            if out = 0
            then (server_step_end e w2 (Some InSecBuff) (Val 0), state0,
                  sspi_error_result_with_message ''Unable to allocate memory for output buffer'')
            else
              (let w3 = emit (Ev_AcceptSecurityContext (scred state0) (sctx state0) (snd InSecBuff)) w2;
                   r = AcceptSecurityContext e (scred state0) (sctx state0) (snd InSecBuff) cbMaxToken;
                   state1 = state0\<lparr>sctx := asc_ctx r\<rparr>;
                   ss = asc_status r;
                   (w4, state2, ret) =
                     (if ss = SEC_E_OK then server_step_names e w3 state1
                      else if ss = SEC_I_CONTINUE_NEEDED then
                        (let (p, w) = base64_encode e (asc_out r) w3;
                             st = state1\<lparr>sresponse := p\<rparr>
                         in if p = None
                            then (w, st,
                                  sspi_error_result_with_message
                                    ''Unable to base64 encode response message'')
                            else (w, st, sspi_success_result AUTH_GSS_CONTINUE))
                      else
                        (let ret = sspi_error_result e ss ''AcceptSecurityContext failed'' in
                         case sctx state1 of
                           Some h \<Rightarrow>
                             (emit (Ev_DeleteSecurityContext h) w3, state1\<lparr>sctx := None\<rparr>, ret)
                         | None \<Rightarrow> (w3, state1, ret)))
               in (server_step_end e w4 (Some InSecBuff) (Val out), state2, ret))))"

definition auth_sspi_server_step ::
  "env \<Rightarrow> world \<Rightarrow> sspi_server_state \<Rightarrow> string option
    \<Rightarrow> world \<times> sspi_server_state \<times> sspi_result" where
  "auth_sspi_server_step e w0 state0 challenge =
     (let (w1, state1) =
            (if scontext_complete state0 then
               (let (wa, sa) =
                      (case sctx state0 of
                         Some h \<Rightarrow> (emit (Ev_DeleteSecurityContext h) w0, state0\<lparr>sctx := None\<rparr>)
                       | None \<Rightarrow> (w0, state0));
                    (wb, sb) =
                      (case susername sa of
                         Some (a, s) \<Rightarrow> (free a wa, sa\<lparr>susername := None\<rparr>)
                       | None \<Rightarrow> (wa, sa))
                in (wb, sb\<lparr>scontext_complete := False\<rparr>))
             else (w0, state0));
          (w2, state2) =
            (case sresponse state1 of
               Some (a, s) \<Rightarrow> (free a w1, state1\<lparr>sresponse := None\<rparr>)
             | None \<Rightarrow> (w1, state1))
      in case challenge of
           None \<Rightarrow>
             (w2, state2,
              sspi_error_result_with_message ''No challenge parameter in request from client'')
         | Some c \<Rightarrow>
             if c = [] then
               (w2, state2,
                sspi_error_result_with_message ''No challenge parameter in request from client'')
             else
               (case base64_decode e challenge w2 of
                  (None, w3) \<Rightarrow>
                    (w3, state2,
                     sspi_error_result_with_message ''Unable to base64 decode challenge'')
                | (Some tok, w3) \<Rightarrow> server_step_accept e w3 state2 tok))"

section \<open>Client unwrap and wrap\<close>

definition auth_sspi_client_unwrap ::
  "env \<Rightarrow> world \<Rightarrow> sspi_client_state \<Rightarrow> string option
    \<Rightarrow> world \<times> sspi_client_state \<times> sspi_result" where
  "auth_sspi_client_unwrap e w0 state0 challenge =
     (let (w1, state1) =
            (case response state0 of
               Some (a, s) \<Rightarrow>
                 (free a w0, state0\<lparr>response := None, qop := SECQOP_WRAP_NO_ENCRYPT\<rparr>)
             | None \<Rightarrow> (w0, state0))
      in if \<not> haveCtx state1 then
           (w1, state1,
            sspi_error_result_with_message
              ''Uninitialized security context. You must use authGSSClientStep to initialize the security context before calling this function.'')
         else
           (case base64_decode e challenge w1 of
              (None, w2) \<Rightarrow>
                (w2, state1, sspi_error_result_with_message ''Unable to decode base64 response'')
            | (Some (a, bs), w2) \<Rightarrow>
                (let w3 = emit (Ev_DecryptMessage (ctx state1) bs (qop state1)) w2;
                     (status, plain, qop1) = DecryptMessage e (ctx state1) bs (qop state1);
                     state2 = state1\<lparr>qop := qop1\<rparr>
                 in if status \<noteq> SEC_E_OK
                    then (free a w3, state2, sspi_error_result e status ''DecryptMessage'')
                    else if plain \<noteq> [] then
                      (let (p, w4) = base64_encode e plain w3;
                           state3 = state2\<lparr>response := p\<rparr>
                       in if p = None
                          then (free a w4, state3,
                                sspi_error_result_with_message
                                  ''Unable to base64 encode decrypted message'')
                          else (free a w4, state3, sspi_success_result AUTH_GSS_COMPLETE))
                    else (free a w3, state2, sspi_success_result AUTH_GSS_COMPLETE))))"





section \<open>Reading the log\<close>

text \<open>The calls made between two worlds of one run, and the kinds of call that the properties
  tell apart.\<close>

definition since :: "world \<Rightarrow> world \<Rightarrow> event list" where
  "since w w' = drop (length (log w)) (log w')"

fun is_decode :: "event \<Rightarrow> bool" where
  "is_decode (Ev_CryptStringToBinaryA v) = True"
| "is_decode ev = False"

fun is_initiate :: "event \<Rightarrow> bool" where
  "is_initiate (Ev_InitializeSecurityContextW c h bufs) = True"
| "is_initiate ev = False"

fun is_heap_event :: "event \<Rightarrow> bool" where
  "is_heap_event (Ev_malloc a n) = True"
| "is_heap_event (Ev_malloc_failed n) = True"
| "is_heap_event (Ev_free a) = True"
| "is_heap_event ev = False"

text \<open>
  \<open>emits P w w'\<close>: the run from \<open>w\<close> to \<open>w'\<close> only added calls, and each satisfies \<open>P\<close>.
\<close>

definition emits :: "(event \<Rightarrow> bool) \<Rightarrow> world \<Rightarrow> world \<Rightarrow> bool" where
  "emits P w w' = (\<exists>evs. log w' = log w @ evs \<and> list_all P evs)"

fun is_encode :: "event \<Rightarrow> bool" where
  "is_encode (Ev_CryptBinaryToStringA v) = True"
| "is_encode ev = False"

text \<open>
  The protection levels that the provider's unprotect calls found in \<open>state->qop\<close>, and the
  plaintexts handed to its protect calls, in call order.
\<close>

fun qop_seen :: "event \<Rightarrow> nat list" where
  "qop_seen (Ev_DecryptMessage h bs q) = [q]"
| "qop_seen ev = []"

definition decrypt_qops :: "event list \<Rightarrow> nat list" where
  "decrypt_qops evs = concat (map qop_seen evs)"

fun plaintext_seen :: "event \<Rightarrow> char list list" where
  "plaintext_seen (Ev_EncryptMessage h q t d p) = [d]"
| "plaintext_seen ev = []"

definition protect_plaintexts :: "event list \<Rightarrow> char list list" where
  "protect_plaintexts evs = concat (map plaintext_seen evs)"

text \<open>
  The opening of the server step (lines 308 to 325) as a list of calls and as a state: what it
  adds to the log and what it leaves in the context.
\<close>

definition server_reset_events :: "sspi_server_state \<Rightarrow> event list" where
  "server_reset_events st =
     (if scontext_complete st
      then (case sctx st of Some h \<Rightarrow> [Ev_DeleteSecurityContext h] | None \<Rightarrow> [])
           @ (case susername st of Some (a, s) \<Rightarrow> [Ev_free a] | None \<Rightarrow> [])
      else [])
     @ (case sresponse st of Some (a, s) \<Rightarrow> [Ev_free a] | None \<Rightarrow> [])"

definition server_reset_state :: "sspi_server_state \<Rightarrow> sspi_server_state" where
  "server_reset_state st =
     (if scontext_complete st
      then st\<lparr>sctx := None, susername := None, scontext_complete := False, sresponse := None\<rparr>
      else st\<lparr>sresponse := None\<rparr>)"

section \<open>The platform codec\<close>

text \<open>
  Modelled from the spec: the routines \<open>CryptBinaryToStringA\<close> and \<open>CryptStringToBinaryA\<close>
  that do the encoding belong to the platform and are not among the sources. The code asks them
  for \<open>CRYPT_STRING_BASE64\<close> with \<open>CRYPT_STRING_NOCRLF\<close>; the spec calls the result "a
  standard transport-safe textual encoding with no embedded line breaks". \<open>b64_encode\<close> and
  \<open>b64_decode\<close> are that encoding: base 64 with the standard alphabet and \<open>=\<close> padding.
  \<open>platform_codec\<close> puts them into an environment the way the two routines report them: the
  size query of the encoder counts the terminating NUL, either routine fails when the block is
  too small, and the decoder fails on a null string.
\<close>

definition b64_alphabet :: string where
  "b64_alphabet = ''ABCDEFGHIJKLMNOPQRSTUVWXYZabcdefghijklmnopqrstuvwxyz0123456789+/''"

definition b64_char :: "nat \<Rightarrow> char" where
  "b64_char i = b64_alphabet ! (i mod 64)"

fun b64_find :: "char \<Rightarrow> string \<Rightarrow> nat option" where
  "b64_find c [] = None"
| "b64_find c (x # xs) = (if c = x then Some 0 else map_option Suc (b64_find c xs))"

definition b64_index :: "char \<Rightarrow> nat option" where
  "b64_index c = b64_find c b64_alphabet"

fun b64_encode :: "char list \<Rightarrow> string" where
  "b64_encode [] = []"
| "b64_encode [a] =
     (let x = (of_char a :: nat)
      in [b64_char (x div 4), b64_char (x mod 4 * 16), CHR ''='', CHR ''=''])"
| "b64_encode [a, b] =
     (let x = (of_char a :: nat); y = (of_char b :: nat)
      in [b64_char (x div 4), b64_char (x mod 4 * 16 + y div 16), b64_char (y mod 16 * 4),
          CHR ''=''])"
| "b64_encode (a # b # c # rest) =
     (let x = (of_char a :: nat); y = (of_char b :: nat); z = (of_char c :: nat)
      in b64_char (x div 4) # b64_char (x mod 4 * 16 + y div 16)
           # b64_char (y mod 16 * 4 + z div 64) # b64_char (z mod 64) # b64_encode rest)"

fun b64_decode :: "string \<Rightarrow> char list option" where
  "b64_decode [] = Some []"
| "b64_decode (c0 # c1 # c2 # c3 # rest) =
     (case (b64_index c0, b64_index c1) of
        (Some i0, Some i1) \<Rightarrow>
          if rest = [] \<and> c2 = CHR ''='' \<and> c3 = CHR ''=''
          then Some [char_of (i0 * 4 + i1 div 16)]
          else
            (case b64_index c2 of
               Some i2 \<Rightarrow>
                 if rest = [] \<and> c3 = CHR ''=''
                 then Some [char_of (i0 * 4 + i1 div 16), char_of (i1 mod 16 * 16 + i2 div 4)]
                 else
                   (case b64_index c3 of
                      Some i3 \<Rightarrow>
                        (case b64_decode rest of
                           Some bs \<Rightarrow>
                             Some (char_of (i0 * 4 + i1 div 16)
                                   # char_of (i1 mod 16 * 16 + i2 div 4)
                                   # char_of (i2 mod 4 * 64 + i3) # bs)
                         | None \<Rightarrow> None)
                    | None \<Rightarrow> None)
             | None \<Rightarrow> None)
      | _ \<Rightarrow> None)"
| "b64_decode _ = None"

definition platform_codec :: "env \<Rightarrow> env" where
  "platform_codec e = e\<lparr>
     CryptBinaryToStringA_len := (\<lambda>v. Some (Suc (length (b64_encode v)))),
     CryptBinaryToStringA :=
       (\<lambda>v n. if length (b64_encode v) < n then Some (b64_encode v) else None),
     CryptStringToBinaryA_len :=
       (\<lambda>s. case s of None \<Rightarrow> None | Some t \<Rightarrow> map_option length (b64_decode t)),
     CryptStringToBinaryA :=
       (\<lambda>s n. case s of
                None \<Rightarrow> None
              | Some t \<Rightarrow>
                  (case b64_decode t of
                     Some bs \<Rightarrow> if length bs \<le> n then Some bs else None
                   | None \<Rightarrow> None))\<rparr>"

section \<open>A provider stub and sample contexts\<close>

text \<open>
  A platform on which every allocation succeeds and the provider runs a handshake of two rounds:
  a step without a context asks for another round, a step on a context completes. The theorems
  below hold for every platform; the stub is where they are run.
\<close>

definition stub_env :: env where
  "stub_env = platform_codec
     \<lparr>malloc_ok = (\<lambda>i n. True),
      heap_junk = (\<lambda>i. CHR 0x00),
      stack_junk = 0,
      CryptBinaryToStringA_len = (\<lambda>v. None),
      CryptBinaryToStringA = (\<lambda>v n. None),
      CryptStringToBinaryA_len = (\<lambda>s. None),
      CryptStringToBinaryA = (\<lambda>s n. None),
      WideCharToMultiByte_len = (\<lambda>s. Suc (length s)),
      WideCharToMultiByte = (\<lambda>s n. Some s),
      FormatMessageA = (\<lambda>c. None),
      AcquireCredentialsHandleW = (\<lambda>m ident. (SEC_E_OK, 1)),
      InitializeSecurityContextW =
        (\<lambda>c existing target fl bufs.
           \<lparr>isc_status = (if existing = None then SEC_I_CONTINUE_NEEDED else SEC_E_OK),
            isc_ctx = 7, isc_out = Some ''tok''\<rparr>),
      AcceptSecurityContext =
        (\<lambda>c existing tok n.
           \<lparr>asc_status = (if existing = None then SEC_I_CONTINUE_NEEDED else SEC_E_OK),
            asc_ctx = Some 9, asc_out = ''srv''\<rparr>),
      QueryContextAttributesW_NAMES = (\<lambda>h. (SEC_E_OK, ''alice'')),
      QueryContextAttributesW_NATIVE_NAMES = (\<lambda>h. (SEC_E_OK, ''alice'')),
      QueryContextAttributes_SIZES = (\<lambda>h. (SEC_E_OK, 2, 3)),
      QuerySecurityPackageInfoW = (SEC_E_OK, 16),
      ImpersonateSecurityContext = (\<lambda>h. SEC_E_OK),
      GetUserName_len = 6,
      GetUserName = (\<lambda>n. Some ''alice''),
      DecryptMessage = (\<lambda>h bs q. (SEC_E_OK, bs, 0)),
      EncryptMessage = (\<lambda>h q t d p. (SEC_E_OK, t, d, p))\<rparr>"

definition world0 :: world where
  "world0 = \<lparr>log = [], allocs = 1\<rparr>"

definition client0 :: sspi_client_state where
  "client0 =
     \<lparr>cred = 1, ctx = 0, spn = Some (1, ''svc@host''), response = None, username = None,
      flags = 0, haveCred = True, haveCtx = False, qop = SECQOP_WRAP_NO_ENCRYPT,
      responseConf = 0, context_complete = False\<rparr>"

definition server0 :: sspi_server_state where
  "server0 =
     \<lparr>sctx = None, scred = Some 3, sresponse = None, susername = None,
      scontext_complete = False, targetname = None\<rparr>"

text \<open>
  The client context after the first round of the stub's handshake, and the world it lives in.
\<close>

definition client1 :: sspi_client_state where
  "client1 = client0\<lparr>ctx := 7, haveCtx := True, response := Some (2, ''dG9r'')\<rparr>"

definition world1 :: world where
  "world1 = \<lparr>log = [], allocs = 2\<rparr>"

text \<open>The stub with a heap that has no memory left: every \<open>malloc\<close> fails.\<close>

definition no_memory_env :: env where
  "no_memory_env = stub_env\<lparr>malloc_ok := (\<lambda>i n. False)\<rparr>"

text \<open>A server context that has completed an exchange, and the world it lives in.\<close>

definition server2 :: sspi_server_state where
  "server2 =
     \<lparr>sctx = Some 9, scred = Some 3, sresponse = None, susername = Some (7, ''alice''),
      scontext_complete = True, targetname = None\<rparr>"

definition world2 :: world where
  "world2 = \<lparr>log = [], allocs = 7\<rparr>"

text \<open>
  The stub on which the query of the package's token size fails, and whose stack holds a
  non-null value where \<open>OutSecBuff.pvBuffer\<close> lives.
\<close>

definition sizing_failure_env :: env where
  "sizing_failure_env = stub_env\<lparr>QuerySecurityPackageInfoW := (- 1, 0), stack_junk := 57005\<rparr>"

text \<open>
  The client context after a complete exchange, holding the protection level 0 that an earlier
  unwrap negotiated and no pending token.
\<close>

definition client2 :: sspi_client_state where
  "client2 = client0\<lparr>ctx := 7, haveCtx := True, context_complete := True, qop := 0\<rparr>"

text \<open>
  The strings handed to the decoder, the input buffers handed to the provider's initiate call,
  and the existing contexts handed to its accept call, in call order.
\<close>

fun decode_seen :: "event \<Rightarrow> string option list" where
  "decode_seen (Ev_CryptStringToBinaryA v) = [v]"
| "decode_seen ev = []"

definition decoded_strings :: "event list \<Rightarrow> string option list" where
  "decoded_strings evs = concat (map decode_seen evs)"

fun initiate_seen :: "event \<Rightarrow> SecBuffer list list" where
  "initiate_seen (Ev_InitializeSecurityContextW c h bufs) = [bufs]"
| "initiate_seen ev = []"

definition initiate_inputs :: "event list \<Rightarrow> SecBuffer list list" where
  "initiate_inputs evs = concat (map initiate_seen evs)"

fun accept_seen :: "event \<Rightarrow> SecHandle option list" where
  "accept_seen (Ev_AcceptSecurityContext c h t) = [h]"
| "accept_seen ev = []"

definition accept_contexts :: "event list \<Rightarrow> SecHandle option list" where
  "accept_contexts evs = concat (map accept_seen evs)"

section \<open>Properties\<close>

lemma client_clean_released:
  "auth_sspi_client_clean w st = (w', st') \<Longrightarrow>
     \<not> haveCtx st' \<and> \<not> haveCred st' \<and> spn st' = None \<and> response st' = None \<and> username st' = None"
  by (auto simp: auth_sspi_client_clean_def Let_def split: if_splits option.splits prod.splits)

lemma client_clean_noop:
  "\<not> haveCtx st \<Longrightarrow> \<not> haveCred st \<Longrightarrow> spn st = None \<Longrightarrow> response st = None \<Longrightarrow>
     username st = None \<Longrightarrow> auth_sspi_client_clean w st = (w, st)"
  by (simp add: auth_sspi_client_clean_def)

lemma server_clean_released:
  "auth_sspi_server_clean w st = (w', st') \<Longrightarrow>
     sctx st' = None \<and> scred st' = None \<and> sresponse st' = None \<and> susername st' = None
       \<and> targetname st' = None"
  by (auto simp: auth_sspi_server_clean_def Let_def split: if_splits option.splits prod.splits)

lemma server_clean_noop:
  "sctx st = None \<Longrightarrow> scred st = None \<Longrightarrow> sresponse st = None \<Longrightarrow> susername st = None \<Longrightarrow>
     targetname st = None \<Longrightarrow> auth_sspi_server_clean w st = (w, st)"
  by (simp add: auth_sspi_server_clean_def)

text \<open>
  C8. Release is idempotent, for the client and for the server context: a second release, run on
  the state and the world the first one left, returns exactly that state and that world. The
  world holds the log of every call, so the second release frees no block, releases no handle and
  calls nothing.
\<close>

theorem release_idempotent:
  "(case auth_sspi_client_clean w cst of (w', cst') \<Rightarrow>
      auth_sspi_client_clean w' cst' = (w', cst'))
   \<and> (case auth_sspi_server_clean w sst of (w', sst') \<Rightarrow>
      auth_sspi_server_clean w' sst' = (w', sst'))"
proof
  obtain w' cst' where c: "auth_sspi_client_clean w cst = (w', cst')"
    by (cases "auth_sspi_client_clean w cst")
  from client_clean_released [OF c] have "auth_sspi_client_clean w' cst' = (w', cst')"
    by (simp add: client_clean_noop)
  with c show "case auth_sspi_client_clean w cst of (w', cst') \<Rightarrow>
      auth_sspi_client_clean w' cst' = (w', cst')"
    by simp
next
  obtain w' sst' where s: "auth_sspi_server_clean w sst = (w', sst')"
    by (cases "auth_sspi_server_clean w sst")
  from server_clean_released [OF s] have "auth_sspi_server_clean w' sst' = (w', sst')"
    by (simp add: server_clean_noop)
  with s show "case auth_sspi_server_clean w sst of (w', sst') \<Rightarrow>
      auth_sspi_server_clean w' sst' = (w', sst')"
    by simp
qed


subsection \<open>The codec\<close>

lemma b64_alphabet_length: "length b64_alphabet = 64"
  by (simp add: b64_alphabet_def)

lemma b64_alphabet_distinct: "distinct b64_alphabet"
  by (simp add: b64_alphabet_def)

lemma b64_find_nth: "distinct xs \<Longrightarrow> i < length xs \<Longrightarrow> b64_find (xs ! i) xs = Some i"
proof (induction xs arbitrary: i)
  case Nil
  then show ?case by simp
next
  case (Cons x xs)
  show ?case
  proof (cases i)
    case 0
    then show ?thesis by simp
  next
    case (Suc j)
    with Cons.prems have "xs ! j \<in> set xs" "x \<notin> set xs" "j < length xs" by auto
    then have "xs ! j \<noteq> x" by auto
    with Suc Cons show ?thesis by simp
  qed
qed

lemma b64_index_char: "i < 64 \<Longrightarrow> b64_index (b64_char i) = Some i"
  unfolding b64_index_def b64_char_def
  using b64_find_nth [OF b64_alphabet_distinct, of i] by (simp add: b64_alphabet_length)

lemma b64_char_in: "b64_char i \<in> set b64_alphabet"
  unfolding b64_char_def by (rule nth_mem) (simp add: b64_alphabet_length)

lemma b64_char_not_pad: "b64_char i \<noteq> CHR ''=''"
proof -
  have "CHR ''='' \<notin> set b64_alphabet" by (simp add: b64_alphabet_def)
  with b64_char_in [of i] show ?thesis by metis
qed

lemma q16: "(b::nat) < 256 \<Longrightarrow> b div 16 < 16" by simp
lemma q64: "(c::nat) < 256 \<Longrightarrow> c div 64 < 4" by simp

lemma sextet0: "(a::nat) < 256 \<Longrightarrow> a div 4 < 64" by simp

lemma sextet1: "(b::nat) < 256 \<Longrightarrow> a mod 4 * 16 + b div 16 < 64"
proof -
  assume "b < 256"
  then have "b div 16 < 16" by simp
  moreover have "a mod 4 < 4" by simp
  ultimately show ?thesis by linarith
qed

lemma sextet2: "(c::nat) < 256 \<Longrightarrow> b mod 16 * 4 + c div 64 < 64"
proof -
  assume "c < 256"
  then have "c div 64 < 4" by simp
  moreover have "b mod 16 < 16" by simp
  ultimately show ?thesis by linarith
qed

lemma octet0: "(b::nat) < 256 \<Longrightarrow> a div 4 * 4 + (a mod 4 * 16 + b div 16) div 16 = a"
  using q16 [of b] by simp

lemma octet1:
  "(b::nat) < 256 \<Longrightarrow> (c::nat) < 256 \<Longrightarrow>
     (a mod 4 * 16 + b div 16) mod 16 * 16 + (b mod 16 * 4 + c div 64) div 4 = b"
  using q16 [of b] q64 [of c] by simp

lemma octet2: "(c::nat) < 256 \<Longrightarrow> (b mod 16 * 4 + c div 64) mod 4 * 64 + c mod 64 = c"
  using q64 [of c] by simp

lemma b64_decode_quad:
  assumes "i0 < 64" "i1 < 64" "i2 < 64" "i3 < 64"
  shows "b64_decode (b64_char i0 # b64_char i1 # b64_char i2 # b64_char i3 # rest) =
           (case b64_decode rest of
              Some bs \<Rightarrow> Some (char_of (i0 * 4 + i1 div 16) # char_of (i1 mod 16 * 16 + i2 div 4)
                               # char_of (i2 mod 4 * 64 + i3) # bs)
            | None \<Rightarrow> None)"
  using assms by (simp add: b64_index_char b64_char_not_pad)

lemma b64_decode_pad1:
  assumes "i0 < 64" "i1 < 64" "i2 < 64"
  shows "b64_decode [b64_char i0, b64_char i1, b64_char i2, CHR ''=''] =
           Some [char_of (i0 * 4 + i1 div 16), char_of (i1 mod 16 * 16 + i2 div 4)]"
  using assms by (simp add: b64_index_char b64_char_not_pad)

lemma b64_decode_pad2:
  assumes "i0 < 64" "i1 < 64"
  shows "b64_decode [b64_char i0, b64_char i1, CHR ''='', CHR ''=''] =
           Some [char_of (i0 * 4 + i1 div 16)]"
  using assms by (simp add: b64_index_char)

lemma b64_roundtrip: "b64_decode (b64_encode bs) = Some bs"
proof (induction bs rule: b64_encode.induct)
  case 1
  show ?case by simp
next
  case (2 a)
  let ?x = "of_char a :: nat"
  have x: "?x < 256" by simp
  have s1: "?x mod 4 * 16 < 64" using sextet1 [of 0 ?x] by simp
  have "b64_decode (b64_encode [a]) = Some [char_of (?x div 4 * 4 + (?x mod 4 * 16) div 16)]"
    using b64_decode_pad2 [OF sextet0 [OF x] s1] by (simp add: Let_def del: b64_decode.simps)
  also have "?x div 4 * 4 + (?x mod 4 * 16) div 16 = ?x" by simp
  finally show ?case by simp
next
  case (3 a b)
  let ?x = "of_char a :: nat" and ?y = "of_char b :: nat"
  have x: "?x < 256" and y: "?y < 256" by simp_all
  have s2: "?y mod 16 * 4 < 64" using sextet2 [of 0 ?y] by simp
  have "b64_decode (b64_encode [a, b]) =
          Some [char_of (?x div 4 * 4 + (?x mod 4 * 16 + ?y div 16) div 16),
                char_of ((?x mod 4 * 16 + ?y div 16) mod 16 * 16 + (?y mod 16 * 4) div 4)]"
    using b64_decode_pad1 [OF sextet0 [OF x] sextet1 [OF y, of ?x] s2] by (simp add: Let_def del: b64_decode.simps)
  also have "?x div 4 * 4 + (?x mod 4 * 16 + ?y div 16) div 16 = ?x"
    by (rule octet0 [OF y])
  also have "(?x mod 4 * 16 + ?y div 16) mod 16 * 16 + (?y mod 16 * 4) div 4 = ?y"
    using q16 [OF y] by simp
  finally show ?case by simp
next
  case (4 a b c rest)
  let ?x = "of_char a :: nat" and ?y = "of_char b :: nat" and ?z = "of_char c :: nat"
  have x: "?x < 256" and y: "?y < 256" and z: "?z < 256" by simp_all
  have s3: "?z mod 64 < 64" by simp
  have "b64_decode (b64_encode (a # b # c # rest)) =
          Some (char_of (?x div 4 * 4 + (?x mod 4 * 16 + ?y div 16) div 16)
                # char_of ((?x mod 4 * 16 + ?y div 16) mod 16 * 16 + (?y mod 16 * 4 + ?z div 64) div 4)
                # char_of ((?y mod 16 * 4 + ?z div 64) mod 4 * 64 + ?z mod 64) # rest)"
    using b64_decode_quad [OF sextet0 [OF x] sextet1 [OF y, of ?x] sextet2 [OF z, of ?y] s3, of "b64_encode rest"]
      "4.IH"
    by (simp add: Let_def del: b64_decode.simps)
  also have "?x div 4 * 4 + (?x mod 4 * 16 + ?y div 16) div 16 = ?x"
    by (rule octet0 [OF y])
  also have "(?x mod 4 * 16 + ?y div 16) mod 16 * 16 + (?y mod 16 * 4 + ?z div 64) div 4 = ?y"
    by (rule octet1 [OF y z])
  also have "(?y mod 16 * 4 + ?z div 64) mod 4 * 64 + ?z mod 64 = ?z"
    by (rule octet2 [OF z])
  finally show ?case by simp
qed



lemma malloc_ok_codec [simp]: "malloc_ok (platform_codec e) = malloc_ok e"
  by (simp add: platform_codec_def)





subsection \<open>What each function adds to the log\<close>

lemma emits_refl: "emits P w w"
  by (simp add: emits_def)

lemma emits_trans: "emits P w w1 \<Longrightarrow> emits P w1 w2 \<Longrightarrow> emits P w w2"
  by (auto simp: emits_def)

lemma emits_since: "emits P w w' \<Longrightarrow> log w' = log w @ since w w' \<and> list_all P (since w w')"
  by (auto simp: emits_def since_def)

lemma emits_emit: "P ev \<Longrightarrow> emits P w (emit ev w)"
  by (simp add: emits_def emit_def)

lemma emits_free: "P (Ev_free a) \<Longrightarrow> emits P w (free a w)"
  by (simp add: free_def emits_emit)

lemma emits_malloc:
  assumes "malloc e n w = (a, w')" and "\<And>ev. is_heap_event ev \<Longrightarrow> P ev"
  shows "emits P w w'"
  using assms by (auto simp: malloc_def emits_def split: if_splits)

lemma emits_base64_encode:
  assumes "base64_encode e v w = (p, w')"
    and "\<And>ev. is_heap_event ev \<Longrightarrow> P ev" and "P (Ev_CryptBinaryToStringA v)"
  shows "emits P w w'"
  using assms
  by (auto simp: base64_encode_def malloc_def emits_def emit_def free_def Let_def
        split: option.splits if_splits)

lemma emits_base64_decode:
  assumes "base64_decode e v w = (p, w')"
    and "\<And>ev. is_heap_event ev \<Longrightarrow> P ev" and "P (Ev_CryptStringToBinaryA v)"
  shows "emits P w w'"
  using assms
  by (auto simp: base64_decode_def malloc_def emits_def emit_def free_def Let_def
        split: option.splits if_splits)

lemma emits_wide_to_utf8:
  assumes "wide_to_utf8 e v w = (p, w')"
    and "\<And>ev. is_heap_event ev \<Longrightarrow> P ev" and "P Ev_WideCharToMultiByte"
  shows "emits P w w'"
  using assms
  by (auto simp: wide_to_utf8_def malloc_def emits_def emit_def free_def Let_def
        split: option.splits if_splits)

lemma emits_client_step_done:
  assumes "\<And>ev. is_heap_event ev \<Longrightarrow> P ev" and "\<And>s. P (Ev_FreeContextBuffer s)"
  shows "emits P w (client_step_done w token out)"
  using assms
  by (auto simp: client_step_done_def emits_def emit_def free_def Let_def split: option.splits)

lemma emits_client_step_names:
  assumes "client_step_names e w st status = (w', st', r)"
    and "\<And>ev. is_heap_event ev \<Longrightarrow> P ev" and "\<And>s. P (Ev_FreeContextBuffer s)"
    and "P Ev_WideCharToMultiByte" and "\<And>h. P (Ev_QueryContextAttributesW h)"
  shows "emits P w w'"
proof (cases "status = SEC_E_OK")
  case False
  with assms(1) show ?thesis by (auto simp: client_step_names_def emits_refl)
next
  case True
  let ?w1 = "emit (Ev_QueryContextAttributesW (Some (ctx st))) w"
  have q: "emits P w ?w1" by (rule emits_emit) (rule assms(5))
  obtain status1 sUserName where n: "QueryContextAttributesW_NAMES e (ctx st) = (status1, sUserName)"
    by (cases "QueryContextAttributesW_NAMES e (ctx st)")
  show ?thesis
  proof (cases "status1 = SEC_E_OK")
    case False
    with True n assms(1) q show ?thesis by (auto simp: client_step_names_def Let_def)
  next
    case ok: True
    obtain u w2 where u: "wide_to_utf8 e sUserName ?w1 = (u, w2)"
      by (cases "wide_to_utf8 e sUserName ?w1")
    have w2: "emits P w w2"
      using q emits_wide_to_utf8 [where P = P, OF u assms(2) assms(4)] by (rule emits_trans)
    have "w' = w2 \<or> w' = emit (Ev_FreeContextBuffer ''names.sUserName'') w2"
      using True n ok u assms(1) by (auto simp: client_step_names_def Let_def split: if_splits)
    then show ?thesis
      using w2 emits_trans [OF w2 emits_emit [of P "Ev_FreeContextBuffer ''names.sUserName''" w2]]
        assms(3) by auto
  qed
qed

lemma emits_client_step_call_tail:
  assumes "client_step_call e w st bufs token = (w', st', r)"
    and "\<And>ev. is_heap_event ev \<Longrightarrow> P ev" and "\<And>s. P (Ev_FreeContextBuffer s)"
    and "P Ev_WideCharToMultiByte" and "\<And>h. P (Ev_QueryContextAttributesW h)"
    and "\<And>v. P (Ev_CryptBinaryToStringA v)"
  shows "emits P
           (emit (Ev_InitializeSecurityContextW (cred st)
                    (if haveCtx st then Some (ctx st) else None) bufs) w) w'"
proof -
  let ?ex = "if haveCtx st then Some (ctx st) else None"
  let ?w1 = "emit (Ev_InitializeSecurityContextW (cred st) ?ex bufs) w"
  let ?r = "InitializeSecurityContextW e (cred st) ?ex (spn st) (flags st) bufs"
  let ?cb = "case isc_out ?r of Some bs \<Rightarrow> bs | None \<Rightarrow> []"
  let ?st2 = "st\<lparr>ctx := isc_ctx ?r, haveCtx := True, context_complete := True\<rparr>"
  note fin = emits_client_step_done [where P = P, OF assms(2) assms(3)]
  show ?thesis
  proof (cases "isc_status ?r \<noteq> SEC_E_OK \<and> isc_status ?r \<noteq> SEC_I_CONTINUE_NEEDED")
    case True
    then have "w' = client_step_done ?w1 token (isc_out ?r)"
      using assms(1) by (simp add: client_step_call_def Let_def)
    then show ?thesis using fin by simp
  next
    case False
    obtain w2 st3 where e: "(if ?cb \<noteq> []
                   then (let (p, w) = base64_encode e ?cb ?w1 in (w, ?st2\<lparr>response := p\<rparr>))
                   else (?w1, ?st2)) = (w2, st3)"
      by (cases "(if ?cb \<noteq> []
                   then (let (p, w) = base64_encode e ?cb ?w1 in (w, ?st2\<lparr>response := p\<rparr>))
                   else (?w1, ?st2))")
    have w2: "emits P ?w1 w2"
    proof (cases "?cb = []")
      case True
      with e show ?thesis by (simp add: emits_refl)
    next
      case ne: False
      obtain p wa where b: "base64_encode e ?cb ?w1 = (p, wa)"
        by (cases "base64_encode e ?cb ?w1")
      with e ne have "w2 = wa" by simp
      with emits_base64_encode [where P = P, OF b assms(2) assms(6)] show ?thesis by simp
    qed
    obtain w3 st4 res where n: "client_step_names e w2 st3 (isc_status ?r) = (w3, st4, res)"
      by (cases "client_step_names e w2 st3 (isc_status ?r)")
    have w3: "emits P w2 w3"
      by (rule emits_client_step_names [where P = P, OF n assms(2) assms(3) assms(4) assms(5)])
    have "w' = client_step_done w2 token (isc_out ?r) \<or> w' = client_step_done w3 token (isc_out ?r)"
      using False assms(1) e n by (auto simp: client_step_call_def Let_def split: if_splits)
    then show ?thesis
      using w2 w3 fin emits_trans by blast
  qed
qed

lemma emits_client_step_call:
  assumes "client_step_call e w st bufs token = (w', st', r)"
    and "\<And>ev. is_heap_event ev \<Longrightarrow> P ev" and "\<And>s. P (Ev_FreeContextBuffer s)"
    and "P Ev_WideCharToMultiByte" and "\<And>h. P (Ev_QueryContextAttributesW h)"
    and "\<And>v. P (Ev_CryptBinaryToStringA v)" and "\<And>c h b. P (Ev_InitializeSecurityContextW c h b)"
  shows "emits P w w'"
  by (rule emits_trans
        [OF emits_emit
            emits_client_step_call_tail
              [where P = P, OF assms(1) assms(2) assms(3) assms(4) assms(5) assms(6)]])
     (rule assms(7))

subsection \<open>Client step: when the challenge is decoded\<close>

lemma base64_decode_fst:
  "allocs w = allocs v \<Longrightarrow> fst (base64_decode e c w) = fst (base64_decode e c v)"
  by (simp add: base64_decode_def malloc_def emit_def free_def Let_def split: option.splits)

lemma base64_decode_first:
  "base64_decode e c w = (p, w') \<Longrightarrow> \<exists>evs. log w' = log w @ Ev_CryptStringToBinaryA c # evs"
  by (auto simp: base64_decode_def malloc_def emit_def free_def Let_def
        split: option.splits if_splits)


lemma since_trans:
  "emits P w w1 \<Longrightarrow> emits Q w1 w2 \<Longrightarrow> since w w2 = since w w1 @ since w1 w2"
  by (auto simp: emits_def since_def)

lemma b64_decode_tok: "b64_decode ''dG9r'' = Some ''tok''"
proof -
  have e: "b64_encode ''tok'' = ''dG9r''"
    by (simp add: b64_char_def b64_alphabet_def)
  show ?thesis using b64_roundtrip [of "''tok''"] unfolding e .
qed

lemma stub_codec_tok:
  "CryptStringToBinaryA_len stub_env (Some ''dG9r'') = Some 3"
  "CryptStringToBinaryA stub_env (Some ''dG9r'') 3 = Some ''tok''"
  "malloc_ok stub_env i n"
  by (simp_all add: stub_env_def platform_codec_def b64_decode_tok del: b64_decode.simps)

lemma stub_decode_tok:
  "base64_decode stub_env (Some ''dG9r'') w =
     (Some (Suc (allocs w), ''tok''),
      \<lparr>log = log w @ [Ev_CryptStringToBinaryA (Some ''dG9r''), Ev_malloc (Suc (allocs w)) 3,
                       Ev_CryptStringToBinaryA (Some ''dG9r'')],
       allocs = Suc (allocs w)\<rparr>)"
  by (simp add: base64_decode_def malloc_def emit_def Let_def stub_codec_tok)

lemma base64_decode_log:
  assumes "base64_decode e c w = (p, w')"
  shows "\<exists>evs. log w' = log w @ Ev_CryptStringToBinaryA c # evs
             \<and> list_all (\<lambda>ev. ev = Ev_CryptStringToBinaryA c \<or> is_heap_event ev) evs"
  using assms
  by (auto simp: base64_decode_def malloc_def emit_def free_def Let_def
        split: option.splits if_splits)

lemma heap_event_quiet:
  "is_heap_event ev \<Longrightarrow> decode_seen ev = [] \<and> initiate_seen ev = [] \<and> accept_seen ev = []"
  by (cases ev) simp_all

lemma decode_events_read:
  assumes "list_all (\<lambda>ev. ev = Ev_CryptStringToBinaryA c \<or> is_heap_event ev) evs"
  shows "set (decoded_strings evs) \<subseteq> {c} \<and> initiate_inputs evs = []"
  using assms
proof (induction evs)
  case Nil
  show ?case by (simp add: decoded_strings_def initiate_inputs_def)
next
  case (Cons ev evs)
  then have "ev = Ev_CryptStringToBinaryA c \<or> is_heap_event ev"
    and ih: "set (decoded_strings evs) \<subseteq> {c} \<and> initiate_inputs evs = []"
    by simp_all
  then have "set (decode_seen ev) \<subseteq> {c} \<and> initiate_seen ev = []"
    using heap_event_quiet [of ev] by auto
  with ih show ?case by (simp add: decoded_strings_def initiate_inputs_def)
qed

lemma quiet_events_read:
  assumes "list_all (\<lambda>ev. decode_seen ev = [] \<and> initiate_seen ev = []) evs"
  shows "decoded_strings evs = [] \<and> initiate_inputs evs = []"
  using assms
proof (induction evs)
  case Nil
  show ?case by (simp add: decoded_strings_def initiate_inputs_def)
next
  case (Cons ev evs)
  then have "decode_seen ev = []" "initiate_seen ev = []"
    and "decoded_strings evs = []" "initiate_inputs evs = []"
    by simp_all
  then show ?case by (simp add: decoded_strings_def initiate_inputs_def)
qed

lemma decoded_strings_append [simp]:
  "decoded_strings (xs @ ys) = decoded_strings xs @ decoded_strings ys"
  by (simp add: decoded_strings_def)

lemma initiate_inputs_append [simp]:
  "initiate_inputs (xs @ ys) = initiate_inputs xs @ initiate_inputs ys"
  by (simp add: initiate_inputs_def)

lemma is_decode_seen: "is_decode ev \<longleftrightarrow> decode_seen ev \<noteq> []"
  by (cases ev) simp_all

lemma is_initiate_seen: "is_initiate ev \<longleftrightarrow> initiate_seen ev \<noteq> []"
  by (cases ev) simp_all

lemma list_ex_is_decode: "list_ex is_decode evs \<longleftrightarrow> decoded_strings evs \<noteq> []"
  by (induction evs) (simp_all add: decoded_strings_def is_decode_seen)

lemma list_ex_is_initiate: "list_ex is_initiate evs \<longleftrightarrow> initiate_inputs evs \<noteq> []"
  by (induction evs) (simp_all add: initiate_inputs_def is_initiate_seen)

lemma decoded_strings_initiate [simp]:
  "decoded_strings (Ev_InitializeSecurityContextW c h bufs # evs) = decoded_strings evs"
  by (simp add: decoded_strings_def)

lemma initiate_inputs_initiate [simp]:
  "initiate_inputs (Ev_InitializeSecurityContextW c h bufs # evs) = bufs # initiate_inputs evs"
  by (simp add: initiate_inputs_def)

lemma decoded_strings_decode [simp]:
  "decoded_strings (Ev_CryptStringToBinaryA c # evs) = c # decoded_strings evs"
  by (simp add: decoded_strings_def)

lemma initiate_inputs_decode [simp]:
  "initiate_inputs (Ev_CryptStringToBinaryA c # evs) = initiate_inputs evs"
  by (simp add: initiate_inputs_def)

lemma decode_event_mem:
  "Ev_CryptStringToBinaryA c \<in> set evs \<longleftrightarrow> c \<in> set (decoded_strings evs)"
proof (induction evs)
  case Nil
  show ?case by (simp add: decoded_strings_def)
next
  case (Cons ev evs)
  have "ev = Ev_CryptStringToBinaryA c \<longleftrightarrow> c \<in> set (decode_seen ev)"
    by (cases ev) auto
  with Cons show ?case by (auto simp: decoded_strings_def)
qed

lemma client_step_call_log:
  assumes "client_step_call e w st bufs token = (w', st', r)"
  shows "\<exists>rest. log w' = log w @ Ev_InitializeSecurityContextW (cred st)
                    (if haveCtx st then Some (ctx st) else None) bufs # rest
              \<and> decoded_strings rest = [] \<and> initiate_inputs rest = []"
proof -
  let ?Q = "\<lambda>ev. decode_seen ev = [] \<and> initiate_seen ev = []"
  have "emits ?Q (emit (Ev_InitializeSecurityContextW (cred st)
                    (if haveCtx st then Some (ctx st) else None) bufs) w) w'"
    by (rule emits_client_step_call_tail [where P = ?Q, OF assms])
       (simp_all add: heap_event_quiet)
  then obtain rest where "log w' = log w @ Ev_InitializeSecurityContextW (cred st)
                    (if haveCtx st then Some (ctx st) else None) bufs # rest"
    "list_all ?Q rest"
    by (auto simp: emits_def emit_def)
  with quiet_events_read [of rest] show ?thesis by blast
qed

text \<open>
  C10. A client step hands a string to the decoder exactly when the context already holds a
  security context (\<open>haveCtx\<close>), and the string is then the challenge and nothing else. The
  provider's initiate call receives the channel bindings, if any, followed by the token that the
  decoding of the challenge gave; without a security context it receives the bindings alone and
  the challenge is not read. Initialisation leaves \<open>haveCtx\<close> false, so the first step decodes
  nothing. When the decoding fails, the step returns the decode error and the log of the call
  holds no \<open>InitializeSecurityContextW\<close>: the provider is not reached.
\<close>

theorem client_step_decodes_iff_context:
  assumes "auth_sspi_client_step e w st challenge bindings = (w', st', r)"
  shows "set (decoded_strings (since w w')) = (if haveCtx st then {challenge} else {})
       \<and> (Ev_CryptStringToBinaryA challenge \<in> set (since w w') \<longleftrightarrow> haveCtx st)
       \<and> (list_ex is_decode (since w w') \<longleftrightarrow> haveCtx st)
       \<and> initiate_inputs (since w w') =
           (let inBufs = (case bindings of
                            Some b \<Rightarrow> [SECBUFFER_CHANNEL_BINDINGS b]
                          | None \<Rightarrow> [])
            in if haveCtx st
               then (case fst (base64_decode e challenge w) of
                       None \<Rightarrow> []
                     | Some tok \<Rightarrow> [inBufs @ [SECBUFFER_TOKEN (snd tok)]])
               else [inBufs])
       \<and> (haveCtx st \<and> fst (base64_decode e challenge w) = None \<longrightarrow>
            r = Val (sspi_error_result_with_message ''Unable to base64 decode pvBuffer'')
            \<and> \<not> list_ex is_initiate (since w w'))
       \<and> \<not> haveCtx (fst (snd (auth_sspi_client_init e v service fl user ulen domain dlen
                                      password plen mechoid old)))"
proof -
  have init: "\<not> haveCtx (fst (snd (auth_sspi_client_init e v service fl user ulen domain dlen
                                      password plen mechoid old)))"
    by (simp add: auth_sspi_client_init_def Let_def split: prod.splits)
  let ?w1 = "case response st of Some (a, s) \<Rightarrow> free a w | None \<Rightarrow> w"
  let ?st1 = "case response st of Some (a, s) \<Rightarrow> st\<lparr>response := None\<rparr> | None \<Rightarrow> st"
  let ?bufs = "case bindings of Some b \<Rightarrow> [SECBUFFER_CHANNEL_BINDINGS b] | None \<Rightarrow> []"
  let ?pre = "case response st of Some (a, s) \<Rightarrow> [Ev_free a] | None \<Rightarrow> []"
  have clr: "(case response st of
               Some (a, s) \<Rightarrow> (free a w, st\<lparr>response := None\<rparr>)
             | None \<Rightarrow> (w, st)) = (?w1, ?st1)"
    by (simp split: option.splits)
  have hc: "haveCtx ?st1 = haveCtx st" by (simp split: option.splits)
  have al: "allocs ?w1 = allocs w" by (simp add: free_def emit_def split: option.splits)
  have l1: "log ?w1 = log w @ ?pre"
    by (simp add: free_def emit_def split: option.splits)
  have p1: "decoded_strings ?pre = []" "initiate_inputs ?pre = []"
    "\<not> list_ex is_decode ?pre" "\<not> list_ex is_initiate ?pre"
    by (auto simp: decoded_strings_def initiate_inputs_def split: option.splits)
  note dec_iff = list_ex_is_decode and ini_iff = list_ex_is_initiate
  have main: "set (decoded_strings (since w w')) = (if haveCtx st then {challenge} else {})
       \<and> initiate_inputs (since w w') =
           (if haveCtx st
            then (case fst (base64_decode e challenge w) of
                    None \<Rightarrow> []
                  | Some tok \<Rightarrow> [?bufs @ [SECBUFFER_TOKEN (snd tok)]])
            else [?bufs])
       \<and> (haveCtx st \<and> fst (base64_decode e challenge w) = None \<longrightarrow>
            r = Val (sspi_error_result_with_message ''Unable to base64 decode pvBuffer''))"
  proof (cases "haveCtx st")
    case False
    then have call: "client_step_call e ?w1 ?st1 ?bufs None = (w', st', r)"
      using assms hc by (simp add: auth_sspi_client_step_def clr)
    from client_step_call_log [OF call] obtain rest where
      "log w' = log ?w1 @ Ev_InitializeSecurityContextW (cred ?st1)
                    (if haveCtx ?st1 then Some (ctx ?st1) else None) ?bufs # rest"
      "decoded_strings rest = []" "initiate_inputs rest = []"
      by blast
    then have "since w w' = ?pre @ Ev_InitializeSecurityContextW (cred ?st1)
                    (if haveCtx ?st1 then Some (ctx ?st1) else None) ?bufs # rest"
      "decoded_strings rest = []" "initiate_inputs rest = []"
      using l1 by (simp_all add: since_def)
    then have "decoded_strings (since w w') = []" "initiate_inputs (since w w') = [?bufs]"
      using p1 by simp_all
    with False show ?thesis by simp
  next
    case True
    obtain p w2 where d: "base64_decode e challenge ?w1 = (p, w2)"
      by (cases "base64_decode e challenge ?w1")
    from base64_decode_log [OF d] obtain evs where
      l2: "log w2 = log ?w1 @ Ev_CryptStringToBinaryA challenge # evs"
      and q2: "list_all (\<lambda>ev. ev = Ev_CryptStringToBinaryA challenge \<or> is_heap_event ev) evs"
      by blast
    from decode_events_read [OF q2] have r2:
      "set (decoded_strings evs) \<subseteq> {challenge}" "initiate_inputs evs = []"
      by (auto simp: decoded_strings_def initiate_inputs_def)
    have p: "p = fst (base64_decode e challenge w)"
      using d base64_decode_fst [OF al, of e challenge] by simp
    show ?thesis
    proof (cases p)
      case None
      with True assms d hc have r: "w' = w2"
        "r = Val (sspi_error_result_with_message ''Unable to base64 decode pvBuffer'')"
        by (simp_all add: auth_sspi_client_step_def clr)
      have "since w w' = ?pre @ (Ev_CryptStringToBinaryA challenge # evs)"
        using r l1 l2 by (simp add: since_def)
      then have "set (decoded_strings (since w w')) = {challenge}"
        "initiate_inputs (since w w') = []"
        using p1 r2 by auto
      with True None p r show ?thesis by simp
    next
      case (Some tok)
      with True assms d hc have call:
        "client_step_call e w2 ?st1 (?bufs @ [SECBUFFER_TOKEN (snd tok)]) (Some tok) = (w', st', r)"
        by (simp add: auth_sspi_client_step_def clr)
      from client_step_call_log [OF call] obtain rest where
        l3: "log w' = log w2 @ Ev_InitializeSecurityContextW (cred ?st1)
                    (if haveCtx ?st1 then Some (ctx ?st1) else None)
                    (?bufs @ [SECBUFFER_TOKEN (snd tok)]) # rest"
        and q3: "decoded_strings rest = []" "initiate_inputs rest = []"
        by blast
      have "since w w' = ?pre @ (Ev_CryptStringToBinaryA challenge # evs)
              @ (Ev_InitializeSecurityContextW (cred ?st1)
                    (if haveCtx ?st1 then Some (ctx ?st1) else None)
                    (?bufs @ [SECBUFFER_TOKEN (snd tok)]) # rest)"
        using l1 l2 l3 by (simp add: since_def)
      then have "set (decoded_strings (since w w')) = {challenge}"
        "initiate_inputs (since w w') = [?bufs @ [SECBUFFER_TOKEN (snd tok)]]"
        using p1 r2 q3 hc True by auto
      with True Some p show ?thesis by simp
    qed
  qed
  from main have a: "set (decoded_strings (since w w')) = (if haveCtx st then {challenge} else {})"
    by blast
  then have b: "list_ex is_decode (since w w') \<longleftrightarrow> haveCtx st"
    unfolding dec_iff by (auto split: if_splits)
  from main have c: "haveCtx st \<and> fst (base64_decode e challenge w) = None \<longrightarrow>
            r = Val (sspi_error_result_with_message ''Unable to base64 decode pvBuffer'')
            \<and> \<not> list_ex is_initiate (since w w')"
    unfolding ini_iff by auto
  from a have m: "Ev_CryptStringToBinaryA challenge \<in> set (since w w') \<longleftrightarrow> haveCtx st"
    unfolding decode_event_mem by (auto split: if_splits)
  from main a b c m init show ?thesis unfolding Let_def by blast
qed


theorem client_step_decodes_iff_context_witness:
  "haveCtx client1
   \<and> fst (base64_decode stub_env (Some ''not-valid-encoding!!'') world1) = None
   \<and> (case auth_sspi_client_step stub_env world1 client1 (Some ''not-valid-encoding!!'') None of
        (w', st', r) \<Rightarrow>
          set (decoded_strings (since world1 w')) = {Some ''not-valid-encoding!!''}
          \<and> Ev_CryptStringToBinaryA (Some ''not-valid-encoding!!'') \<in> set (since world1 w')
          \<and> list_ex is_decode (since world1 w')
          \<and> initiate_inputs (since world1 w') = []
          \<and> r = Val (sspi_error_result_with_message ''Unable to base64 decode pvBuffer'')
          \<and> \<not> list_ex is_initiate (since world1 w'))
   \<and> fst (base64_decode stub_env (Some ''dG9r'') world1) = Some (3, ''tok'')
   \<and> (case auth_sspi_client_step stub_env world1 client1 (Some ''dG9r'') (Some ''cb'') of
        (w', st', r) \<Rightarrow>
          set (decoded_strings (since world1 w')) = {Some ''dG9r''}
          \<and> Ev_CryptStringToBinaryA (Some ''dG9r'') \<in> set (since world1 w')
          \<and> list_ex is_decode (since world1 w')
          \<and> initiate_inputs (since world1 w') =
              [[SECBUFFER_CHANNEL_BINDINGS ''cb'', SECBUFFER_TOKEN ''tok'']])
   \<and> \<not> haveCtx client0
   \<and> (case auth_sspi_client_step stub_env world0 client0 (Some ''dG9r'') None of
        (w', st', r) \<Rightarrow>
          decoded_strings (since world0 w') = []
          \<and> Ev_CryptStringToBinaryA (Some ''dG9r'') \<notin> set (since world0 w')
          \<and> \<not> list_ex is_decode (since world0 w')
          \<and> initiate_inputs (since world0 w') = [[]])
   \<and> \<not> haveCtx (fst (snd (auth_sspi_client_init stub_env world0 ''svc@host'' 0 ''bob'' 3
                                  [] 0 [] 0 ''Kerberos'' client1)))"
proof -
  have h: "haveCtx client1" "\<not> haveCtx client0"
    by (simp_all add: client1_def client0_def)
  have f: "fst (base64_decode stub_env (Some ''not-valid-encoding!!'') world1) = None"
    by (simp add: base64_decode_def stub_env_def platform_codec_def b64_index_def
          b64_alphabet_def emit_def Let_def)
  have g: "fst (base64_decode stub_env (Some ''dG9r'') world1) = Some (3, ''tok'')"
    by (simp add: stub_decode_tok world1_def)
  obtain w' st' r where
    a: "auth_sspi_client_step stub_env world1 client1 (Some ''not-valid-encoding!!'') None = (w', st', r)"
    by (cases "auth_sspi_client_step stub_env world1 client1 (Some ''not-valid-encoding!!'') None")
  obtain v' su' q where
    b: "auth_sspi_client_step stub_env world0 client0 (Some ''dG9r'') None = (v', su', q)"
    by (cases "auth_sspi_client_step stub_env world0 client0 (Some ''dG9r'') None")
  obtain u' sv' p where
    c: "auth_sspi_client_step stub_env world1 client1 (Some ''dG9r'') (Some ''cb'') = (u', sv', p)"
    by (cases "auth_sspi_client_step stub_env world1 client1 (Some ''dG9r'') (Some ''cb'')")
  from client_step_decodes_iff_context [OF a, where v = world0 and old = client1]
    client_step_decodes_iff_context [OF b, where v = world0 and old = client1]
    client_step_decodes_iff_context [OF c, where v = world0 and old = client1] h f g a b c
  show ?thesis by simp
qed

subsection \<open>Client step: the complete flag and the returned result\<close>

lemma client_step_names_complete:
  "client_step_names e w st status = (w', st', r) \<Longrightarrow> context_complete st' = context_complete st"
  by (auto simp: client_step_names_def Let_def split: if_splits prod.splits)

lemma client_step_call_continue:
  assumes "client_step_call e w st bufs token = (w', st', Val res)"
    and "code res = AUTH_GSS_CONTINUE"
  shows "context_complete st'"
  using assms
  by (auto simp: client_step_call_def Let_def sspi_error_result_def
        dest: client_step_names_complete split: if_splits prod.splits)

text \<open>
  C1. The step sets \<open>context_complete\<close> as soon as the provider has accepted it, before it
  tells \<open>SEC_E_OK\<close> from \<open>SEC_I_CONTINUE_NEEDED\<close>: whenever a client step returns the
  Continue result, the flag is set in the state it leaves, whatever it was before.
\<close>

theorem client_step_continue_sets_complete:
  assumes "auth_sspi_client_step e w st challenge bindings = (w', st', Val res)"
    and "code res = AUTH_GSS_CONTINUE"
  shows "context_complete st'"
proof -
  from assms(1) have
    "(\<exists>v sv bufs tok. client_step_call e v sv bufs tok = (w', st', Val res))
     \<or> res = sspi_error_result_with_message ''Unable to base64 decode pvBuffer''"
    by (auto simp: auth_sspi_client_step_def Let_def split: if_splits prod.splits option.splits)
  with assms(2) show ?thesis
    by (auto simp: sspi_error_result_with_message_def dest: client_step_call_continue)
qed

subsection \<open>Running the stub\<close>

lemmas stub_defs =
  stub_env_def platform_codec_def client0_def client1_def world0_def world1_def server0_def
  SEC_E_OK_def SEC_I_CONTINUE_NEEDED_def b64_char_def b64_index_def b64_alphabet_def

lemmas step_defs =
  auth_sspi_client_step_def client_step_call_def client_step_names_def client_step_done_def
  base64_encode_def base64_decode_def wide_to_utf8_def malloc_def emit_def free_def
  sspi_success_result_def sspi_error_result_def sspi_error_result_with_message_def Let_def

lemma stub_first_step:
  "auth_sspi_client_step stub_env world0 client0 None None =
     (\<lparr>log = [Ev_InitializeSecurityContextW 1 None [], Ev_CryptBinaryToStringA ''tok'',
              Ev_malloc 2 5, Ev_CryptBinaryToStringA ''tok'',
              Ev_FreeContextBuffer ''outBufs[0].pvBuffer''],
       allocs = 2\<rparr>,
      client0\<lparr>ctx := 7, haveCtx := True, context_complete := True, response := Some (2, ''dG9r'')\<rparr>,
      Val \<lparr>code = AUTH_GSS_CONTINUE, message = None\<rparr>)"
  by (simp add: step_defs stub_defs)

theorem client_step_continue_sets_complete_witness:
  "\<not> context_complete client0
   \<and> (case auth_sspi_client_step stub_env world0 client0 None None of
        (w', st', r) \<Rightarrow> r = Val (sspi_success_result AUTH_GSS_CONTINUE) \<and> context_complete st')"
proof -
  let ?st = "client0\<lparr>ctx := 7, haveCtx := True, context_complete := True, response := Some (2, ''dG9r'')\<rparr>"
  have "context_complete ?st"
    by (rule client_step_continue_sets_complete [OF stub_first_step]) simp
  then show ?thesis
    by (simp add: stub_first_step sspi_success_result_def) (simp add: client0_def)
qed

subsection \<open>Client step: the path on which encoding fails\<close>

lemma not_encode_since:
  "emits (\<lambda>ev. \<not> is_encode ev) w w' \<Longrightarrow> \<not> list_ex is_encode (since w w')"
  using emits_since [of "\<lambda>ev. \<not> is_encode ev" w w'] by (simp add: list_ex_iff list_all_iff)

lemma client_step_call_unassigned:
  assumes call: "client_step_call e w st bufs token = (w', st', r)"
    and fail: "\<forall>v w0. fst (base64_encode e v w0) = None"
    and enc: "list_ex is_encode (since w w')"
  shows "r = Uninit"
proof -
  let ?P = "\<lambda>ev. \<not> is_encode ev"
  let ?ex = "if haveCtx st then Some (ctx st) else None"
  let ?w1 = "emit (Ev_InitializeSecurityContextW (cred st) ?ex bufs) w"
  let ?r = "InitializeSecurityContextW e (cred st) ?ex (spn st) (flags st) bufs"
  let ?cb = "case isc_out ?r of Some bs \<Rightarrow> bs | None \<Rightarrow> []"
  let ?st2 = "st\<lparr>ctx := isc_ctx ?r, haveCtx := True, context_complete := True\<rparr>"
  have heap: "\<And>ev. is_heap_event ev \<Longrightarrow> ?P ev"
    by (auto elim: is_heap_event.elims)
  have w1: "emits ?P w ?w1" by (rule emits_emit) simp
  have fin: "\<And>v. emits ?P v (client_step_done v token (isc_out ?r))"
    by (rule emits_client_step_done [where P = ?P]) (auto elim: is_heap_event.elims)
  show ?thesis
  proof (cases "isc_status ?r \<noteq> SEC_E_OK \<and> isc_status ?r \<noteq> SEC_I_CONTINUE_NEEDED")
    case True
    then have "w' = client_step_done ?w1 token (isc_out ?r)"
      using call by (auto simp: client_step_call_def Let_def split: if_splits)
    with emits_trans [OF w1 fin [of ?w1]] have "emits ?P w w'" by simp
    with enc not_encode_since show ?thesis by blast
  next
    case ok: False
    show ?thesis
    proof (cases "?cb = []")
      case True
      obtain w3 st4 res where n: "client_step_names e ?w1 ?st2 (isc_status ?r) = (w3, st4, res)"
        by (cases "client_step_names e ?w1 ?st2 (isc_status ?r)")
      have w3: "emits ?P ?w1 w3"
        by (rule emits_client_step_names [where P = ?P, OF n]) (auto elim: is_heap_event.elims)
      have "w' = client_step_done w3 token (isc_out ?r)"
        using ok True call n by (auto simp: client_step_call_def Let_def split: if_splits)
      with emits_trans [OF emits_trans [OF w1 w3] fin [of w3]] have "emits ?P w w'" by simp
      with enc not_encode_since show ?thesis by blast
    next
      case False
      obtain p wa where b: "base64_encode e ?cb ?w1 = (p, wa)"
        by (cases "base64_encode e ?cb ?w1")
      with fail have "p = None" by (metis fst_conv)
      with ok False call b show ?thesis
        by (auto simp: client_step_call_def Let_def split: if_splits)
    qed
  qed
qed

text \<open>
  C4. A client step that tries to encode the provider's output token and fails returns its local
  \<open>result\<close> without ever assigning it: the value returned is not a result object. (The check is
  stated for a platform whose encoder fails, and for a call whose log holds the encoder's call.)
\<close>

theorem client_step_encode_failure_unassigned:
  assumes "auth_sspi_client_step e w st challenge bindings = (w', st', r)"
    and "\<forall>v w0. fst (base64_encode e v w0) = None"
    and "list_ex is_encode (since w w')"
  shows "r = Uninit"
proof -
  let ?P = "\<lambda>ev. \<not> is_encode ev"
  let ?w1 = "case response st of Some (a, s) \<Rightarrow> free a w | None \<Rightarrow> w"
  let ?st1 = "case response st of Some (a, s) \<Rightarrow> st\<lparr>response := None\<rparr> | None \<Rightarrow> st"
  let ?bufs = "case bindings of Some b \<Rightarrow> [SECBUFFER_CHANNEL_BINDINGS b] | None \<Rightarrow> []"
  have clr: "(case response st of
               Some (a, s) \<Rightarrow> (free a w, st\<lparr>response := None\<rparr>)
             | None \<Rightarrow> (w, st)) = (?w1, ?st1)"
    by (simp split: option.splits)
  have hc: "haveCtx ?st1 = haveCtx st" by (simp split: option.splits)
  have heap: "\<And>ev. is_heap_event ev \<Longrightarrow> ?P ev"
    by (auto elim: is_heap_event.elims)
  have e1: "emits ?P w ?w1"
    by (auto simp: emits_refl split: option.splits intro: emits_free)
  have tail: "r = Uninit"
    if call: "client_step_call e v ?st1 bufs tok = (w', st', r)" and pre: "emits ?P w v"
    for v bufs tok
  proof (rule ccontr)
    assume "r \<noteq> Uninit"
    with client_step_call_unassigned [OF call assms(2)]
    have "\<not> list_ex is_encode (since v w')" by blast
    moreover have "emits (\<lambda>ev. True) v w'"
      by (rule emits_client_step_call [OF call]) simp_all
    ultimately have "\<not> list_ex is_encode (since w w')"
      using since_trans [OF pre, of "\<lambda>ev. True" w'] not_encode_since [OF pre] by simp
    with assms(3) show False by simp
  qed
  show ?thesis
  proof (cases "haveCtx st")
    case False
    then have "client_step_call e ?w1 ?st1 ?bufs None = (w', st', r)"
      using assms(1) hc by (simp add: auth_sspi_client_step_def clr)
    then show ?thesis using e1 by (rule tail)
  next
    case True
    obtain p w2 where d: "base64_decode e challenge ?w1 = (p, w2)"
      by (cases "base64_decode e challenge ?w1")
    have "emits ?P ?w1 w2"
      by (rule emits_base64_decode [where P = ?P, OF d]) (auto elim: is_heap_event.elims)
    with e1 have e2: "emits ?P w w2" by (rule emits_trans)
    show ?thesis
    proof (cases p)
      case None
      with True assms(1) d hc have "w' = w2" by (simp add: auth_sspi_client_step_def clr)
      with e2 assms(3) not_encode_since show ?thesis by blast
    next
      case (Some tok)
      with True assms(1) d hc have
        "client_step_call e w2 ?st1 (?bufs @ [SECBUFFER_TOKEN (snd tok)]) (Some tok) = (w', st', r)"
        by (simp add: auth_sspi_client_step_def clr)
      then show ?thesis using e2 by (rule tail)
    qed
  qed
qed

lemma no_memory_first_step:
  "auth_sspi_client_step no_memory_env world0 client0 None None =
     (\<lparr>log = [Ev_InitializeSecurityContextW 1 None [], Ev_CryptBinaryToStringA ''tok'',
              Ev_malloc_failed 5, Ev_FreeContextBuffer ''outBufs[0].pvBuffer''],
       allocs = 2\<rparr>,
      client0\<lparr>ctx := 7, haveCtx := True, context_complete := True\<rparr>,
      Uninit)"
  by (simp add: no_memory_env_def step_defs stub_defs)

theorem client_step_encode_failure_unassigned_witness:
  "(\<forall>v w0. fst (base64_encode no_memory_env v w0) = None)
   \<and> (case auth_sspi_client_step no_memory_env world0 client0 None None of
        (w', st', r) \<Rightarrow> list_ex is_encode (since world0 w') \<and> r = Uninit)"
proof -
  have f: "\<forall>v w0. fst (base64_encode no_memory_env v w0) = None"
    by (simp add: no_memory_env_def base64_encode_def malloc_def stub_env_def platform_codec_def
          Let_def)
  obtain w' st' r where
    a: "auth_sspi_client_step no_memory_env world0 client0 None None = (w', st', r)"
    by (cases "auth_sspi_client_step no_memory_env world0 client0 None None")
  from a have "log w' = [Ev_InitializeSecurityContextW 1 None [], Ev_CryptBinaryToStringA ''tok'',
              Ev_malloc_failed 5, Ev_FreeContextBuffer ''outBufs[0].pvBuffer'']"
    by (auto simp: no_memory_first_step)
  then have l: "list_ex is_encode (since world0 w')"
    by (simp add: since_def world0_def)
  from client_step_encode_failure_unassigned [OF a f l] f a l
  show ?thesis by simp
qed

subsection \<open>Server step\<close>

lemma server_step_opening:
  "auth_sspi_server_step e w st challenge =
     (let w2 = w\<lparr>log := log w @ server_reset_events st\<rparr>; st2 = server_reset_state st
      in case challenge of
           None \<Rightarrow>
             (w2, st2,
              sspi_error_result_with_message ''No challenge parameter in request from client'')
         | Some c \<Rightarrow>
             if c = [] then
               (w2, st2,
                sspi_error_result_with_message ''No challenge parameter in request from client'')
             else
               (case base64_decode e challenge w2 of
                  (None, w3) \<Rightarrow>
                    (w3, st2,
                     sspi_error_result_with_message ''Unable to base64 decode challenge'')
                | (Some tok, w3) \<Rightarrow> server_step_accept e w3 st2 tok))"
  by (cases st)
    (auto simp: auth_sspi_server_step_def server_reset_events_def server_reset_state_def
       emit_def free_def Let_def split: option.splits prod.splits)

text \<open>
  C2 (as amended). A server step whose challenge is null or empty returns the error result
  without decoding anything and without a credential, sizing or accept call. Before the
  challenge is looked at, the step runs its opening: the log of the call is exactly
  \<open>server_reset_events\<close>, whose only provider call is the release of the old security context,
  made when the context was complete and its handle valid.
\<close>

theorem server_step_without_challenge:
  assumes "challenge = None \<or> challenge = Some []"
  shows "case auth_sspi_server_step e w st challenge of
           (w', st', r) \<Rightarrow>
             r = sspi_error_result_with_message ''No challenge parameter in request from client''
             \<and> code r = AUTH_GSS_ERROR
             \<and> st' = server_reset_state st
             \<and> since w w' = server_reset_events st
             \<and> filter is_provider_call (since w w') =
                 (if scontext_complete st
                  then (case sctx st of Some h \<Rightarrow> [Ev_DeleteSecurityContext h] | None \<Rightarrow> [])
                  else [])"
  using assms
  by (auto simp: server_step_opening since_def server_reset_events_def
        sspi_error_result_with_message_def split: option.splits)

theorem server_step_without_challenge_witness:
  "(case auth_sspi_server_step stub_env world0 server0 None of
      (w', st', r) \<Rightarrow> code r = AUTH_GSS_ERROR \<and> since world0 w' = [])
   \<and> (case auth_sspi_server_step stub_env world2 server2 (Some []) of
      (w', st', r) \<Rightarrow>
        code r = AUTH_GSS_ERROR
        \<and> since world2 w' = [Ev_DeleteSecurityContext 9, Ev_free 7]
        \<and> filter is_provider_call (since world2 w') = [Ev_DeleteSecurityContext 9])"
  using server_step_without_challenge
      [where challenge = None and e = stub_env and w = world0 and st = server0]
    server_step_without_challenge
      [where challenge = "Some []" and e = stub_env and w = world2 and st = server2]
  by (auto simp: server_reset_events_def server0_def server2_def)

theorem server_step_without_challenge_calls_provider:
  "\<not> (case auth_sspi_server_step stub_env world2 server2 (Some []) of
        (w', st', r) \<Rightarrow>
          code r = AUTH_GSS_ERROR \<and> filter is_provider_call (since world2 w') = [])"
  by (simp add: server_step_opening since_def server_reset_events_def server2_def world2_def)


lemma emits_server_step_end:
  "emits (\<lambda>ev. True) w (server_step_end e w InSecBuff OutSecBuff)"
  by (auto simp: server_step_end_def emits_def emit_def free_def Let_def split: option.splits)

lemma emits_server_step_names:
  "server_step_names e w st = (w', st', r) \<Longrightarrow> emits (\<lambda>ev. True) w w'"
  by (auto simp: server_step_names_def wide_to_utf8_def malloc_def emits_def emit_def free_def
        Let_def split: option.splits if_splits prod.splits)

lemma emits_server_step_accept:
  assumes "server_step_accept e w st tok = (w', st', r)"
  shows "emits (\<lambda>ev. True) w w'"
proof -
  let ?w1 = "emit Ev_QuerySecurityPackageInfoW w"
  obtain qs cbMaxToken where q: "QuerySecurityPackageInfoW e = (qs, cbMaxToken)"
    by (cases "QuerySecurityPackageInfoW e")
  obtain out w2 where m: "malloc e cbMaxToken ?w1 = (out, w2)"
    by (cases "malloc e cbMaxToken ?w1")
  have w1: "emits (\<lambda>ev. True) w ?w1" by (rule emits_emit) simp
  have w2: "emits (\<lambda>ev. True) ?w1 w2" by (rule emits_malloc [OF m]) simp
  show ?thesis
  proof (cases "qs \<noteq> SEC_E_OK \<or> out = 0")
    case True
    with assms q m have "w' = server_step_end e ?w1 (Some tok) Uninit
        \<or> w' = server_step_end e w2 (Some tok) (Val 0)"
      by (auto simp: server_step_accept_def Let_def split: if_splits)
    with w1 w2 emits_server_step_end emits_trans show ?thesis by blast
  next
    case False
    let ?w3 = "emit (Ev_AcceptSecurityContext (scred st) (sctx st) (snd tok)) w2"
    let ?r = "AcceptSecurityContext e (scred st) (sctx st) (snd tok) cbMaxToken"
    let ?st1 = "st\<lparr>sctx := asc_ctx ?r\<rparr>"
    have w3: "emits (\<lambda>ev. True) w2 ?w3" by (rule emits_emit) simp
    note fin = emits_trans [OF emits_trans [OF emits_trans [OF w1 w2] w3]]
    show ?thesis
    proof (cases "asc_status ?r = SEC_E_OK")
      case True
      obtain w4 st2 ret where n: "server_step_names e ?w3 ?st1 = (w4, st2, ret)"
        by (cases "server_step_names e ?w3 ?st1")
      from False True assms q m n have "w' = server_step_end e w4 (Some tok) (Val out)"
        by (auto simp: server_step_accept_def Let_def)
      with emits_trans [OF fin [OF emits_server_step_names [OF n]]
          emits_server_step_end [of w4 e "Some tok" "Val out"]]
      show ?thesis by simp
    next
      case nok: False
      show ?thesis
      proof (cases "asc_status ?r = SEC_I_CONTINUE_NEEDED")
        case True
        obtain p wa where c: "base64_encode e (asc_out ?r) ?w3 = (p, wa)"
          by (cases "base64_encode e (asc_out ?r) ?w3")
        have wa: "emits (\<lambda>ev. True) ?w3 wa"
          by (rule emits_base64_encode [where P = "\<lambda>ev. True", OF c]) simp_all
        from False nok True assms q m c have "w' = server_step_end e wa (Some tok) (Val out)"
          by (auto simp: server_step_accept_def Let_def split: if_splits)
        with emits_trans [OF fin [OF wa] emits_server_step_end [of wa e "Some tok" "Val out"]]
        show ?thesis by simp
      next
        case err: False
        let ?w4 = "case asc_ctx ?r of Some h \<Rightarrow> emit (Ev_DeleteSecurityContext h) ?w3 | None \<Rightarrow> ?w3"
        have w4: "emits (\<lambda>ev. True) ?w3 ?w4"
          by (auto simp: emits_refl split: option.splits intro: emits_emit)
        from False nok err assms q m have "w' = server_step_end e ?w4 (Some tok) (Val out)"
          by (auto simp: server_step_accept_def Let_def split: option.splits)
        with emits_trans [OF fin [OF w4] emits_server_step_end [of ?w4 e "Some tok" "Val out"]]
        show ?thesis by simp
      qed
    qed
  qed
qed

lemma emits_server_step_opened:
  assumes "auth_sspi_server_step e w st challenge = (w', st', r)"
  shows "emits (\<lambda>ev. True) (w\<lparr>log := log w @ server_reset_events st\<rparr>) w'"
proof -
  let ?w2 = "w\<lparr>log := log w @ server_reset_events st\<rparr>"
  show ?thesis
  proof (cases "challenge = None \<or> challenge = Some []")
    case True
    with assms have "w' = ?w2" by (auto simp: server_step_opening Let_def split: if_splits)
    then show ?thesis by (simp add: emits_refl)
  next
    case False
    obtain p w3 where d: "base64_decode e challenge ?w2 = (p, w3)"
      by (cases "base64_decode e challenge ?w2")
    have w3: "emits (\<lambda>ev. True) ?w2 w3"
      by (rule emits_base64_decode [where P = "\<lambda>ev. True", OF d]) simp_all
    show ?thesis
    proof (cases p)
      case None
      with False assms d have "w' = w3" by (auto simp: server_step_opening Let_def split: if_splits)
      with w3 show ?thesis by simp
    next
      case (Some tok)
      with False assms d have "server_step_accept e w3 (server_reset_state st) tok = (w', st', r)"
        by (auto simp: server_step_opening Let_def split: if_splits)
      from emits_trans [OF w3 emits_server_step_accept [OF this]] show ?thesis .
    qed
  qed
qed

lemma server_reset_twice:
  "server_reset_events (server_reset_state st) = []"
  "server_reset_state (server_reset_state st) = server_reset_state st"
  by (simp_all add: server_reset_events_def server_reset_state_def)

lemma accept_contexts_append [simp]:
  "accept_contexts (xs @ ys) = accept_contexts xs @ accept_contexts ys"
  by (simp add: accept_contexts_def)

lemma accept_contexts_accept [simp]:
  "accept_contexts (Ev_AcceptSecurityContext c h t # evs) = h # accept_contexts evs"
  by (simp add: accept_contexts_def)

lemma accept_contexts_decode [simp]:
  "accept_contexts (Ev_CryptStringToBinaryA c # evs) = accept_contexts evs"
  by (simp add: accept_contexts_def)

lemma accept_contexts_quiet:
  "list_all (\<lambda>ev. accept_seen ev = []) evs \<Longrightarrow> accept_contexts evs = []"
  by (induction evs) (simp_all add: accept_contexts_def)

lemma heap_event_no_provider: "is_heap_event ev \<Longrightarrow> \<not> is_provider_call ev"
  by (cases ev) simp_all

lemma decode_events_quiet:
  assumes "list_all (\<lambda>ev. ev = Ev_CryptStringToBinaryA c \<or> is_heap_event ev) evs"
  shows "accept_contexts evs = [] \<and> filter is_provider_call evs = []"
  using assms
proof (induction evs)
  case Nil
  show ?case by (simp add: accept_contexts_def)
next
  case (Cons ev evs)
  then have "ev = Ev_CryptStringToBinaryA c \<or> is_heap_event ev"
    and ih: "accept_contexts evs = [] \<and> filter is_provider_call evs = []"
    by simp_all
  then have "accept_seen ev = [] \<and> \<not> is_provider_call ev"
    using heap_event_quiet [of ev] heap_event_no_provider [of ev] by auto
  with ih show ?case by (simp add: accept_contexts_def)
qed

lemma server_step_end_quiet:
  "emits (\<lambda>ev. accept_seen ev = []) w (server_step_end e w InSecBuff OutSecBuff)"
  by (auto simp: server_step_end_def emits_def emit_def free_def Let_def split: option.splits)

lemma server_step_names_quiet:
  "server_step_names e w st = (w', st', r) \<Longrightarrow> emits (\<lambda>ev. accept_seen ev = []) w w'"
  by (auto simp: server_step_names_def wide_to_utf8_def malloc_def emits_def emit_def free_def
        Let_def split: option.splits if_splits prod.splits)

lemma server_step_accept_log:
  assumes "server_step_accept e w st tok = (w', st', r)"
  shows "\<exists>evs. log w' = log w @ evs
           \<and> (accept_contexts evs = [sctx st] \<or> accept_contexts evs = [] \<and> st' = st)"
proof -
  let ?Q = "\<lambda>ev. accept_seen ev = []"
  let ?w1 = "emit Ev_QuerySecurityPackageInfoW w"
  obtain qs cbMaxToken where q: "QuerySecurityPackageInfoW e = (qs, cbMaxToken)"
    by (cases "QuerySecurityPackageInfoW e")
  obtain out w2 where m: "malloc e cbMaxToken ?w1 = (out, w2)"
    by (cases "malloc e cbMaxToken ?w1")
  have w1: "emits ?Q w ?w1" by (rule emits_emit) simp
  have w2: "emits ?Q ?w1 w2" by (rule emits_malloc [OF m]) (simp add: heap_event_quiet)
  note w12 = emits_trans [OF w1 w2]
  show ?thesis
  proof (cases "qs \<noteq> SEC_E_OK \<or> out = 0")
    case True
    with assms q m have "(w' = server_step_end e ?w1 (Some tok) Uninit
        \<or> w' = server_step_end e w2 (Some tok) (Val 0)) \<and> st' = st"
      by (auto simp: server_step_accept_def Let_def split: if_splits)
    with w1 w12 server_step_end_quiet emits_trans have "emits ?Q w w'" and "st' = st"
      by blast+
    then obtain evs where "log w' = log w @ evs" "list_all ?Q evs" "st' = st"
      by (auto simp: emits_def)
    with accept_contexts_quiet [of evs] show ?thesis by blast
  next
    case False
    let ?a = "Ev_AcceptSecurityContext (scred st) (sctx st) (snd tok)"
    let ?w3 = "emit ?a w2"
    let ?r = "AcceptSecurityContext e (scred st) (sctx st) (snd tok) cbMaxToken"
    let ?st1 = "st\<lparr>sctx := asc_ctx ?r\<rparr>"
    have tail: "emits ?Q ?w3 w'"
    proof (cases "asc_status ?r = SEC_E_OK")
      case True
      obtain w4 st2 ret where n: "server_step_names e ?w3 ?st1 = (w4, st2, ret)"
        by (cases "server_step_names e ?w3 ?st1")
      from False True assms q m n have "w' = server_step_end e w4 (Some tok) (Val out)"
        by (auto simp: server_step_accept_def Let_def)
      with emits_trans [OF server_step_names_quiet [OF n]
          server_step_end_quiet [of w4 e "Some tok" "Val out"]]
      show ?thesis by simp
    next
      case nok: False
      show ?thesis
      proof (cases "asc_status ?r = SEC_I_CONTINUE_NEEDED")
        case True
        obtain p wa where c: "base64_encode e (asc_out ?r) ?w3 = (p, wa)"
          by (cases "base64_encode e (asc_out ?r) ?w3")
        have wa: "emits ?Q ?w3 wa"
          by (rule emits_base64_encode [where P = ?Q, OF c]) (simp_all add: heap_event_quiet)
        from False nok True assms q m c have "w' = server_step_end e wa (Some tok) (Val out)"
          by (auto simp: server_step_accept_def Let_def split: if_splits)
        with emits_trans [OF wa server_step_end_quiet [of wa e "Some tok" "Val out"]]
        show ?thesis by simp
      next
        case err: False
        let ?w4 = "case asc_ctx ?r of Some h \<Rightarrow> emit (Ev_DeleteSecurityContext h) ?w3 | None \<Rightarrow> ?w3"
        have w4: "emits ?Q ?w3 ?w4"
          by (auto simp: emits_refl split: option.splits intro: emits_emit)
        from False nok err assms q m have "w' = server_step_end e ?w4 (Some tok) (Val out)"
          by (auto simp: server_step_accept_def Let_def split: option.splits)
        with emits_trans [OF w4 server_step_end_quiet [of ?w4 e "Some tok" "Val out"]]
        show ?thesis by simp
      qed
    qed
    from w12 obtain xs where xs: "log w2 = log w @ xs" "list_all ?Q xs"
      by (auto simp: emits_def)
    from tail obtain ys where ys: "log w' = log ?w3 @ ys" "list_all ?Q ys"
      by (auto simp: emits_def)
    have "log w' = log w @ (xs @ ?a # ys)"
      using xs ys by (simp add: emit_def)
    moreover have "accept_contexts (xs @ ?a # ys) = [sctx st]"
      using accept_contexts_quiet [OF xs(2)] accept_contexts_quiet [OF ys(2)]
      by simp
    ultimately show ?thesis by blast
  qed
qed

text \<open>
  C6. A step on a completed server context with a challenge that is not empty is a step on the
  reset context: the security context gone, the principal cleared, \<open>complete\<close> false. The
  reset comes first in the log of the call: the old security context is released, the
  principal's block and the pending response freed, and the next call is the decoding of the
  challenge; every provider call of the exchange comes after it. The step is the decoding
  followed by \<open>server_step_accept\<close> on the reset state: the provider's accept call is made at
  most once and receives no existing security context, and a state left complete, or holding a
  principal or a security context, got them from that call. When the decoding fails, the state
  left is the reset state and the provider is not called beyond the release of the old context.
\<close>

theorem server_step_resets_completed_context:
  assumes "scontext_complete st" and "c \<noteq> []"
  shows "let w0 = w\<lparr>log := log w @ server_reset_events st\<rparr>; st0 = server_reset_state st in
           auth_sspi_server_step e w st (Some c) = auth_sspi_server_step e w0 st0 (Some c)
           \<and> sctx st0 = None \<and> susername st0 = None \<and> \<not> scontext_complete st0
           \<and> filter is_provider_call (server_reset_events st) =
               (case sctx st of Some h \<Rightarrow> [Ev_DeleteSecurityContext h] | None \<Rightarrow> [])
           \<and> (case auth_sspi_server_step e w st (Some c) of
                (w', st', r) \<Rightarrow> since w w' = server_reset_events st @ since w0 w')
           \<and> auth_sspi_server_step e w st (Some c) =
               (case base64_decode e (Some c) w0 of
                  (None, w3) \<Rightarrow>
                    (w3, st0, sspi_error_result_with_message ''Unable to base64 decode challenge'')
                | (Some tok, w3) \<Rightarrow> server_step_accept e w3 st0 tok)
           \<and> server_reset_events st =
               (case sctx st of Some h \<Rightarrow> [Ev_DeleteSecurityContext h] | None \<Rightarrow> [])
               @ (case susername st of Some (a, s) \<Rightarrow> [Ev_free a] | None \<Rightarrow> [])
               @ (case sresponse st of Some (a, s) \<Rightarrow> [Ev_free a] | None \<Rightarrow> [])
           \<and> (case auth_sspi_server_step e w st (Some c) of
                (w', st', r) \<Rightarrow>
                  take (Suc (length (server_reset_events st))) (since w w') =
                    server_reset_events st @ [Ev_CryptStringToBinaryA (Some c)]
                  \<and> list_all (\<lambda>h. h = None) (accept_contexts (since w w'))
                  \<and> length (accept_contexts (since w w')) \<le> 1
                  \<and> (scontext_complete st' \<or> susername st' \<noteq> None \<or> sctx st' \<noteq> None \<longrightarrow>
                       accept_contexts (since w w') = [None])
                  \<and> (fst (base64_decode e (Some c) w0) = None \<longrightarrow>
                       st' = st0
                       \<and> r = sspi_error_result_with_message ''Unable to base64 decode challenge''
                       \<and> accept_contexts (since w w') = []
                       \<and> filter is_provider_call (since w w') =
                           (case sctx st of Some h \<Rightarrow> [Ev_DeleteSecurityContext h] | None \<Rightarrow> [])))"
proof -
  let ?w0 = "w\<lparr>log := log w @ server_reset_events st\<rparr>"
  let ?st0 = "server_reset_state st"
  let ?err = "sspi_error_result_with_message ''Unable to base64 decode challenge''"
  have eq: "auth_sspi_server_step e w st (Some c) = auth_sspi_server_step e ?w0 ?st0 (Some c)"
    by (simp add: server_step_opening [of e ?w0] server_step_opening [of e w] server_reset_twice Let_def)
  have st0: "sctx ?st0 = None \<and> susername ?st0 = None \<and> \<not> scontext_complete ?st0"
    using assms(1) by (simp add: server_reset_state_def)
  have calls: "filter is_provider_call (server_reset_events st) =
               (case sctx st of Some h \<Rightarrow> [Ev_DeleteSecurityContext h] | None \<Rightarrow> [])"
    using assms(1) by (simp add: server_reset_events_def split: option.splits)
  have stepeq: "auth_sspi_server_step e w st (Some c) =
               (case base64_decode e (Some c) ?w0 of
                  (None, w3) \<Rightarrow> (w3, ?st0, ?err)
                | (Some tok, w3) \<Rightarrow> server_step_accept e w3 ?st0 tok)"
    using assms(2) by (simp add: server_step_opening Let_def)
  have evs: "server_reset_events st =
               (case sctx st of Some h \<Rightarrow> [Ev_DeleteSecurityContext h] | None \<Rightarrow> [])
               @ (case susername st of Some (a, s) \<Rightarrow> [Ev_free a] | None \<Rightarrow> [])
               @ (case sresponse st of Some (a, s) \<Rightarrow> [Ev_free a] | None \<Rightarrow> [])"
    using assms(1) by (simp add: server_reset_events_def)
  obtain w' st' r where s: "auth_sspi_server_step e w st (Some c) = (w', st', r)"
    by (cases "auth_sspi_server_step e w st (Some c)")
  from emits_server_step_opened [OF s] obtain evs0 where "log w' = log ?w0 @ evs0"
    by (auto simp: emits_def)
  then have ord: "since w w' = server_reset_events st @ since ?w0 w'"
    by (simp add: since_def)
  obtain p w3 where d: "base64_decode e (Some c) ?w0 = (p, w3)"
    by (cases "base64_decode e (Some c) ?w0")
  from base64_decode_log [OF d] obtain dv where
    l3: "log w3 = log ?w0 @ Ev_CryptStringToBinaryA (Some c) # dv"
    and q3: "list_all (\<lambda>ev. ev = Ev_CryptStringToBinaryA (Some c) \<or> is_heap_event ev) dv"
    by blast
  from decode_events_quiet [OF q3] have dq:
    "accept_contexts dv = []" "filter is_provider_call dv = []"
    by simp_all
  have tail: "\<exists>rest. log w' = log w3 @ rest
      \<and> (accept_contexts rest = [None] \<or> accept_contexts rest = [] \<and> st' = ?st0)
      \<and> (p = None \<longrightarrow> rest = [] \<and> st' = ?st0 \<and> r = ?err)"
  proof (cases p)
    case None
    with s stepeq d have "w' = w3" "st' = ?st0" "r = ?err" by simp_all
    then show ?thesis by (simp add: accept_contexts_def)
  next
    case (Some tok)
    with s stepeq d have "server_step_accept e w3 ?st0 tok = (w', st', r)" by simp
    from server_step_accept_log [OF this] st0 Some show ?thesis by auto
  qed
  then obtain rest where
    l4: "log w' = log w3 @ rest"
    and a4: "accept_contexts rest = [None] \<or> accept_contexts rest = [] \<and> st' = ?st0"
    and f4: "p = None \<longrightarrow> rest = [] \<and> st' = ?st0 \<and> r = ?err"
    by blast
  have sw: "since w w' = server_reset_events st @ Ev_CryptStringToBinaryA (Some c) # dv @ rest"
    using l3 l4 by (simp add: since_def)
  have rq: "accept_contexts (server_reset_events st) = []"
    by (auto simp: server_reset_events_def accept_contexts_def split: option.splits)
  have ac: "accept_contexts (since w w') = accept_contexts rest"
    unfolding sw using rq dq by simp
  have t1: "take (Suc (length (server_reset_events st))) (since w w') =
              server_reset_events st @ [Ev_CryptStringToBinaryA (Some c)]"
    unfolding sw by simp
  have t2: "list_all (\<lambda>h. h = None) (accept_contexts (since w w'))"
    "length (accept_contexts (since w w')) \<le> 1"
    using a4 unfolding ac by auto
  have t3: "scontext_complete st' \<or> susername st' \<noteq> None \<or> sctx st' \<noteq> None \<longrightarrow>
              accept_contexts (since w w') = [None]"
    using a4 st0 unfolding ac by auto
  have pf: "p = fst (base64_decode e (Some c) ?w0)" using d by simp
  have t4: "fst (base64_decode e (Some c) ?w0) = None \<longrightarrow>
              st' = ?st0 \<and> r = ?err
              \<and> accept_contexts (since w w') = []
              \<and> filter is_provider_call (since w w') =
                  (case sctx st of Some h \<Rightarrow> [Ev_DeleteSecurityContext h] | None \<Rightarrow> [])"
    using f4 dq rq calls unfolding pf [symmetric] sw by simp
  from ord s have run1: "case auth_sspi_server_step e w st (Some c) of
                (w', st', r) \<Rightarrow> since w w' = server_reset_events st @ since ?w0 w'"
    by simp
  from t1 t2 t3 t4 s have run2: "case auth_sspi_server_step e w st (Some c) of
                (w', st', r) \<Rightarrow>
                  take (Suc (length (server_reset_events st))) (since w w') =
                    server_reset_events st @ [Ev_CryptStringToBinaryA (Some c)]
                  \<and> list_all (\<lambda>h. h = None) (accept_contexts (since w w'))
                  \<and> length (accept_contexts (since w w')) \<le> 1
                  \<and> (scontext_complete st' \<or> susername st' \<noteq> None \<or> sctx st' \<noteq> None \<longrightarrow>
                       accept_contexts (since w w') = [None])
                  \<and> (fst (base64_decode e (Some c) ?w0) = None \<longrightarrow>
                       st' = ?st0 \<and> r = ?err
                       \<and> accept_contexts (since w w') = []
                       \<and> filter is_provider_call (since w w') =
                           (case sctx st of Some h \<Rightarrow> [Ev_DeleteSecurityContext h] | None \<Rightarrow> []))"
    by simp
  from st0 have s1: "sctx ?st0 = None" and s2: "susername ?st0 = None"
    and s3: "\<not> scontext_complete ?st0"
    by simp_all
  show ?thesis
    unfolding Let_def
    by (intro conjI) (rule eq s1 s2 s3 calls run1 stepeq evs run2)+
qed

lemma stub_server_restart:
  "auth_sspi_server_step stub_env world2 server2 (Some ''dG9r'') =
     (\<lparr>log = [Ev_DeleteSecurityContext 9, Ev_free 7,
              Ev_CryptStringToBinaryA (Some ''dG9r''), Ev_malloc 8 3,
              Ev_CryptStringToBinaryA (Some ''dG9r''), Ev_QuerySecurityPackageInfoW,
              Ev_malloc 9 16, Ev_AcceptSecurityContext (Some 3) None ''tok'',
              Ev_CryptBinaryToStringA ''srv'', Ev_malloc 10 5,
              Ev_CryptBinaryToStringA ''srv'', Ev_free 8, Ev_free 9],
       allocs = 10\<rparr>,
      \<lparr>sctx = Some 9, scred = Some 3, sresponse = Some (10, ''c3J2''), susername = None,
       scontext_complete = False, targetname = None\<rparr>,
      \<lparr>code = AUTH_GSS_CONTINUE, message = None\<rparr>)"
proof -
  let ?w0 = "world2\<lparr>log := log world2 @ server_reset_events server2\<rparr>"
  let ?w3 = "\<lparr>log = [Ev_DeleteSecurityContext 9, Ev_free 7,
                     Ev_CryptStringToBinaryA (Some ''dG9r''), Ev_malloc 8 3,
                     Ev_CryptStringToBinaryA (Some ''dG9r'')],
              allocs = 8\<rparr>"
  have d: "base64_decode stub_env (Some ''dG9r'') ?w0 = (Some (8, ''tok''), ?w3)"
    by (simp add: stub_decode_tok server_reset_events_def server2_def world2_def)
  have a: "server_step_accept stub_env ?w3 (server_reset_state server2) (8, ''tok'') =
     (\<lparr>log = [Ev_DeleteSecurityContext 9, Ev_free 7,
              Ev_CryptStringToBinaryA (Some ''dG9r''), Ev_malloc 8 3,
              Ev_CryptStringToBinaryA (Some ''dG9r''), Ev_QuerySecurityPackageInfoW,
              Ev_malloc 9 16, Ev_AcceptSecurityContext (Some 3) None ''tok'',
              Ev_CryptBinaryToStringA ''srv'', Ev_malloc 10 5,
              Ev_CryptBinaryToStringA ''srv'', Ev_free 8, Ev_free 9],
       allocs = 10\<rparr>,
      \<lparr>sctx = Some 9, scred = Some 3, sresponse = Some (10, ''c3J2''), susername = None,
       scontext_complete = False, targetname = None\<rparr>,
      \<lparr>code = AUTH_GSS_CONTINUE, message = None\<rparr>)"
    by (simp add: server_step_accept_def server_step_end_def base64_encode_def malloc_def
          emit_def free_def sspi_success_result_def Let_def server_reset_state_def server2_def
          stub_env_def platform_codec_def SEC_E_OK_def SEC_I_CONTINUE_NEEDED_def b64_char_def
          b64_alphabet_def)
  show ?thesis by (simp add: server_step_opening d a Let_def)
qed

theorem server_step_resets_completed_context_witness:
  "scontext_complete server2
   \<and> server_reset_events server2 = [Ev_DeleteSecurityContext 9, Ev_free 7]
   \<and> (let w0 = world2\<lparr>log := log world2 @ server_reset_events server2\<rparr>;
          st0 = server_reset_state server2 in
        auth_sspi_server_step stub_env world2 server2 (Some ''dG9r'')
          = auth_sspi_server_step stub_env w0 st0 (Some ''dG9r'')
        \<and> sctx st0 = None \<and> susername st0 = None \<and> \<not> scontext_complete st0
        \<and> filter is_provider_call (server_reset_events server2) =
            (case sctx server2 of Some h \<Rightarrow> [Ev_DeleteSecurityContext h] | None \<Rightarrow> [])
        \<and> (case auth_sspi_server_step stub_env world2 server2 (Some ''dG9r'') of
             (w', st', r) \<Rightarrow>
               since world2 w' = server_reset_events server2 @ since w0 w'
               \<and> take 3 (since world2 w') =
                   [Ev_DeleteSecurityContext 9, Ev_free 7, Ev_CryptStringToBinaryA (Some ''dG9r'')]
               \<and> sctx st' = Some 9
               \<and> accept_contexts (since world2 w') = [None])
        \<and> fst (base64_decode stub_env (Some ''not-valid-encoding!!'') w0) = None
        \<and> (case auth_sspi_server_step stub_env world2 server2 (Some ''not-valid-encoding!!'') of
             (w', st', r) \<Rightarrow>
               st' = st0
               \<and> r = sspi_error_result_with_message ''Unable to base64 decode challenge''
               \<and> accept_contexts (since world2 w') = []
               \<and> filter is_provider_call (since world2 w') = [Ev_DeleteSecurityContext 9]))"
proof -
  let ?w0 = "world2\<lparr>log := log world2 @ server_reset_events server2\<rparr>"
  let ?st0 = "server_reset_state server2"
  have c: "scontext_complete server2" by (simp add: server2_def)
  have h: "sctx server2 = Some 9" by (simp add: server2_def)
  have ev: "server_reset_events server2 = [Ev_DeleteSecurityContext 9, Ev_free 7]"
    by (simp add: server_reset_events_def server2_def)
  have ne: "''dG9r'' \<noteq> []" and nv: "''not-valid-encoding!!'' \<noteq> []" by simp_all
  have f: "fst (base64_decode stub_env (Some ''not-valid-encoding!!'') ?w0) = None"
    by (simp add: base64_decode_def stub_env_def platform_codec_def b64_index_def
          b64_alphabet_def emit_def Let_def)
  note t1 = server_step_resets_completed_context [OF c ne, of world2 stub_env, unfolded Let_def]
  note t2 = server_step_resets_completed_context [OF c nv, of world2 stub_env, unfolded Let_def]
  obtain w' st' r where
    a: "auth_sspi_server_step stub_env world2 server2 (Some ''dG9r'') = (w', st', r)"
    by (cases "auth_sspi_server_step stub_env world2 server2 (Some ''dG9r'')")
  obtain v' su' q where
    b: "auth_sspi_server_step stub_env world2 server2 (Some ''not-valid-encoding!!'') = (v', su', q)"
    by (cases "auth_sspi_server_step stub_env world2 server2 (Some ''not-valid-encoding!!'')")
  from stub_server_restart a have s9: "sctx st' = Some 9" by simp
  note e1 = t1 [THEN conjunct1]
  note e2 = t1 [THEN conjunct2, THEN conjunct1]
  note e3 = t1 [THEN conjunct2, THEN conjunct2, THEN conjunct1]
  note e4 = t1 [THEN conjunct2, THEN conjunct2, THEN conjunct2, THEN conjunct1]
  note e5 = t1 [THEN conjunct2, THEN conjunct2, THEN conjunct2, THEN conjunct2, THEN conjunct1]
  note ord = t1 [THEN conjunct2, THEN conjunct2, THEN conjunct2, THEN conjunct2, THEN conjunct2,
                 THEN conjunct1, unfolded a prod.case]
  note run = t1 [THEN conjunct2, THEN conjunct2, THEN conjunct2, THEN conjunct2, THEN conjunct2,
                 THEN conjunct2, THEN conjunct2, THEN conjunct2, unfolded a prod.case]
  note bad = t2 [THEN conjunct2, THEN conjunct2, THEN conjunct2, THEN conjunct2, THEN conjunct2,
                 THEN conjunct2, THEN conjunct2, THEN conjunct2, unfolded b prod.case]
  from run [THEN conjunct1] have k2: "take 3 (since world2 w') =
       [Ev_DeleteSecurityContext 9, Ev_free 7, Ev_CryptStringToBinaryA (Some ''dG9r'')]"
    unfolding ev by (simp add: numeral_3_eq_3)
  from run [THEN conjunct2, THEN conjunct2, THEN conjunct2, THEN conjunct1] s9
  have k3: "accept_contexts (since world2 w') = [None]" by simp
  note m = mp [OF bad [THEN conjunct2, THEN conjunct2, THEN conjunct2, THEN conjunct2] f]
  from m h have m4: "filter is_provider_call (since world2 v') = [Ev_DeleteSecurityContext 9]"
    by simp
  have run1: "case auth_sspi_server_step stub_env world2 server2 (Some ''dG9r'') of
             (w', st', r) \<Rightarrow>
               since world2 w' = server_reset_events server2 @ since ?w0 w'
               \<and> take 3 (since world2 w') =
                   [Ev_DeleteSecurityContext 9, Ev_free 7, Ev_CryptStringToBinaryA (Some ''dG9r'')]
               \<and> sctx st' = Some 9
               \<and> accept_contexts (since world2 w') = [None]"
    unfolding a prod.case by (intro conjI) (rule ord k2 s9 k3)+
  have run2: "case auth_sspi_server_step stub_env world2 server2 (Some ''not-valid-encoding!!'') of
             (w', st', r) \<Rightarrow>
               st' = ?st0
               \<and> r = sspi_error_result_with_message ''Unable to base64 decode challenge''
               \<and> accept_contexts (since world2 w') = []
               \<and> filter is_provider_call (since world2 w') = [Ev_DeleteSecurityContext 9]"
    unfolding b prod.case
    by (intro conjI)
       (rule m [THEN conjunct1] m [THEN conjunct2, THEN conjunct1]
             m [THEN conjunct2, THEN conjunct2, THEN conjunct1] m4)+
  show ?thesis
    unfolding Let_def
    by (intro conjI) (rule c ev e1 e2 e3 e4 e5 run1 f run2)+
qed

subsection \<open>Server step: the buffers released at the end\<close>

lemma base64_decode_success:
  assumes "base64_decode e v w = (Some (a, bs), w')"
  shows "a = Suc (allocs w)
       \<and> log w' = log w @ [Ev_CryptStringToBinaryA v,
                            Ev_malloc a (case CryptStringToBinaryA_len e v of Some n \<Rightarrow> n | None \<Rightarrow> 0),
                            Ev_CryptStringToBinaryA v]"
  using assms
  by (auto simp: base64_decode_def malloc_def emit_def free_def Let_def
        split: option.splits if_splits)

text \<open>
  C5. When the challenge decodes and the sizing query fails, the step jumps to \<open>end\<close> before
  \<open>OutSecBuff.pvBuffer\<close> has been given a value, and \<open>end\<close> tests and frees that pointer: the
  log of the call ends with the free of the decoded token and then a free of whatever the stack
  held, a block that the call's only allocation (the decoded token) does not account for.
\<close>

theorem server_step_sizing_failure_frees_unassigned:
  assumes "c \<noteq> []"
    and "fst (base64_decode e (Some c) w) = Some (a, bs)"
    and "fst (QuerySecurityPackageInfoW e) \<noteq> SEC_E_OK"
    and "stack_junk e \<noteq> 0"
  shows "case auth_sspi_server_step e w st (Some c) of
           (w', st', r) \<Rightarrow>
             since w w' =
               server_reset_events st
               @ [Ev_CryptStringToBinaryA (Some c),
                  Ev_malloc a (case CryptStringToBinaryA_len e (Some c) of Some n \<Rightarrow> n | None \<Rightarrow> 0),
                  Ev_CryptStringToBinaryA (Some c),
                  Ev_QuerySecurityPackageInfoW,
                  Ev_free a,
                  Ev_free (stack_junk e)]"
proof -
  let ?w2 = "w\<lparr>log := log w @ server_reset_events st\<rparr>"
  obtain p w3 where d: "base64_decode e (Some c) ?w2 = (p, w3)"
    by (cases "base64_decode e (Some c) ?w2")
  have "fst (base64_decode e (Some c) ?w2) = fst (base64_decode e (Some c) w)"
    by (rule base64_decode_fst) simp
  with d assms(2) have p: "p = Some (a, bs)" by simp
  from base64_decode_success [OF d [unfolded p]]
  have l3: "log w3 = log w @ server_reset_events st
              @ [Ev_CryptStringToBinaryA (Some c),
                 Ev_malloc a (case CryptStringToBinaryA_len e (Some c) of Some n \<Rightarrow> n | None \<Rightarrow> 0),
                 Ev_CryptStringToBinaryA (Some c)]"
    by simp
  obtain qs n where q: "QuerySecurityPackageInfoW e = (qs, n)"
    by (cases "QuerySecurityPackageInfoW e")
  with assms(3) have qs: "qs \<noteq> SEC_E_OK" by simp
  have acc: "server_step_accept e w3 (server_reset_state st) (a, bs) =
          (server_step_end e (emit Ev_QuerySecurityPackageInfoW w3) (Some (a, bs)) Uninit,
           server_reset_state st,
           sspi_error_result_with_message ''Unable to get max token size for output buffer'')"
    using q qs by (simp add: server_step_accept_def)
  have "log (server_step_end e (emit Ev_QuerySecurityPackageInfoW w3) (Some (a, bs)) Uninit) =
          log w3 @ [Ev_QuerySecurityPackageInfoW, Ev_free a, Ev_free (stack_junk e)]"
    using assms(4) by (simp add: server_step_end_def emit_def free_def)
  with l3 have "since w (server_step_end e (emit Ev_QuerySecurityPackageInfoW w3) (Some (a, bs)) Uninit)
      = server_reset_events st
               @ [Ev_CryptStringToBinaryA (Some c),
                  Ev_malloc a (case CryptStringToBinaryA_len e (Some c) of Some n \<Rightarrow> n | None \<Rightarrow> 0),
                  Ev_CryptStringToBinaryA (Some c),
                  Ev_QuerySecurityPackageInfoW,
                  Ev_free a,
                  Ev_free (stack_junk e)]"
    by (simp add: since_def)
  then show ?thesis
    using assms(1) d p acc by (simp add: server_step_opening Let_def)
qed

theorem server_step_sizing_failure_frees_unassigned_witness:
  "fst (base64_decode sizing_failure_env (Some ''dG9r'') world0) = Some (2, ''tok'')
   \<and> fst (QuerySecurityPackageInfoW sizing_failure_env) \<noteq> SEC_E_OK
   \<and> stack_junk sizing_failure_env = 57005
   \<and> (case auth_sspi_server_step sizing_failure_env world0 server0 (Some ''dG9r'') of
        (w', st', r) \<Rightarrow>
          since world0 w' =
            [Ev_CryptStringToBinaryA (Some ''dG9r''), Ev_malloc 2 3,
             Ev_CryptStringToBinaryA (Some ''dG9r''), Ev_QuerySecurityPackageInfoW,
             Ev_free 2, Ev_free 57005]
          \<and> \<not> allocated (since world0 w') 57005
          \<and> times_freed (since world0 w') 57005 = 1)"
proof -
  have d: "fst (base64_decode sizing_failure_env (Some ''dG9r'') world0) = Some (2, ''tok'')"
    by (simp add: sizing_failure_env_def base64_decode_def malloc_def emit_def stub_env_def
          platform_codec_def world0_def b64_decode_tok Let_def del: b64_decode.simps)
  have q: "fst (QuerySecurityPackageInfoW sizing_failure_env) \<noteq> SEC_E_OK"
    by (simp add: sizing_failure_env_def stub_defs)
  have j: "stack_junk sizing_failure_env = 57005"
    by (simp add: sizing_failure_env_def stub_defs)
  have j0: "stack_junk sizing_failure_env \<noteq> 0" by (simp add: j)
  have ne: "''dG9r'' \<noteq> []" by simp
  have n: "CryptStringToBinaryA_len sizing_failure_env (Some ''dG9r'') = Some 3"
    by (simp add: sizing_failure_env_def stub_env_def platform_codec_def b64_decode_tok
          del: b64_decode.simps)
  have r: "server_reset_events server0 = []"
    by (simp add: server_reset_events_def server0_def)
  from server_step_sizing_failure_frees_unassigned [OF ne d q j0, of server0] d q j
  show ?thesis
    by (auto simp: n r j allocated_def times_freed_def)
qed

subsection \<open>Client unwrap: the protection level before the provider's call\<close>

lemma decrypt_qops_append [simp]: "decrypt_qops (xs @ ys) = decrypt_qops xs @ decrypt_qops ys"
  by (simp add: decrypt_qops_def)

lemma decrypt_qops_none:
  "emits (\<lambda>ev. qop_seen ev = []) w w' \<Longrightarrow> decrypt_qops (since w w') = []"
  using emits_since [of "\<lambda>ev. qop_seen ev = []" w w']
  by (simp add: decrypt_qops_def list_all_iff)

lemma since_cons: "emits P w w1 \<Longrightarrow> since w (emit ev w1) = since w w1 @ [ev]"
  by (auto simp: emits_def since_def emit_def)

text \<open>
  C3 (as amended). On a context with a security context, the provider's unprotect call is made
  when the token decodes, and the protection level it finds is the no-encryption default when a
  previous outbound token was pending and the level the context already held when none was.
\<close>

theorem client_unwrap_qop_at_call:
  assumes "haveCtx st"
  shows "case auth_sspi_client_unwrap e w st challenge of
           (w', st', r) \<Rightarrow>
             decrypt_qops (since w w') =
               (case fst (base64_decode e challenge w) of
                  None \<Rightarrow> []
                | Some tok \<Rightarrow> [if response st = None then qop st else SECQOP_WRAP_NO_ENCRYPT])"
proof -
  let ?P = "\<lambda>ev. qop_seen ev = []"
  let ?T = "\<lambda>ev. True"
  let ?w1 = "case response st of Some (a, s) \<Rightarrow> free a w | None \<Rightarrow> w"
  let ?st1 = "case response st of
                Some (a, s) \<Rightarrow> st\<lparr>response := None, qop := SECQOP_WRAP_NO_ENCRYPT\<rparr>
              | None \<Rightarrow> st"
  let ?q = "if response st = None then qop st else SECQOP_WRAP_NO_ENCRYPT"
  have clr: "(case response st of
               Some (a, s) \<Rightarrow> (free a w, st\<lparr>response := None, qop := SECQOP_WRAP_NO_ENCRYPT\<rparr>)
             | None \<Rightarrow> (w, st)) = (?w1, ?st1)"
    by (simp split: option.splits)
  have hc: "haveCtx ?st1" using assms by (simp split: option.splits)
  have q1: "qop ?st1 = ?q" by (simp split: option.splits)
  have heap: "\<And>ev. is_heap_event ev \<Longrightarrow> ?P ev"
    by (auto elim: is_heap_event.elims)
  have al: "allocs ?w1 = allocs w" by (simp add: free_def emit_def split: option.splits)
  have e1: "emits ?P w ?w1"
    by (auto simp: emits_refl split: option.splits intro: emits_free)
  obtain p w2 where d: "base64_decode e challenge ?w1 = (p, w2)"
    by (cases "base64_decode e challenge ?w1")
  have "emits ?P ?w1 w2"
    by (rule emits_base64_decode [where P = ?P, OF d]) (auto elim: is_heap_event.elims)
  with e1 have e2: "emits ?P w w2" by (rule emits_trans)
  have p: "fst (base64_decode e challenge w) = p"
    using d base64_decode_fst [OF al, of e challenge] by simp
  obtain w' st' r where u: "auth_sspi_client_unwrap e w st challenge = (w', st', r)"
    by (cases "auth_sspi_client_unwrap e w st challenge")
  have "decrypt_qops (since w w') = (case p of None \<Rightarrow> [] | Some tok \<Rightarrow> [?q])"
  proof (cases p)
    case None
    with u d hc have "w' = w2" by (auto simp: auth_sspi_client_unwrap_def clr)
    with None decrypt_qops_none [OF e2] show ?thesis by simp
  next
    case (Some tok)
    obtain a bs where tok: "tok = (a, bs)" by (cases tok)
    let ?w3 = "emit (Ev_DecryptMessage (ctx ?st1) bs ?q) w2"
    have s3: "decrypt_qops (since w ?w3) = [?q]"
      using since_cons [OF e2, of "Ev_DecryptMessage (ctx ?st1) bs ?q"] decrypt_qops_none [OF e2]
      by (simp add: decrypt_qops_def)
    have e3: "emits ?T w ?w3"
      using e2 by (auto simp: emits_def emit_def list_all_iff)
    obtain status plain qop1 where dm: "DecryptMessage e (ctx ?st1) bs ?q = (status, plain, qop1)"
      by (cases "DecryptMessage e (ctx ?st1) bs ?q")
    obtain pe w4 where en: "base64_encode e plain ?w3 = (pe, w4)"
      by (cases "base64_encode e plain ?w3")
    have e4: "emits ?P ?w3 w4"
      by (rule emits_base64_encode [where P = ?P, OF en]) (auto elim: is_heap_event.elims)
    have "w' = free a ?w3 \<or> w' = free a w4"
      using u d hc Some tok dm en q1
      by (auto simp: auth_sspi_client_unwrap_def clr Let_def split: if_splits)
    moreover have "emits ?P ?w3 (free a ?w3)" by (rule emits_free) simp
    moreover have "emits ?P ?w3 (free a w4)" by (rule emits_trans [OF e4 emits_free]) simp
    ultimately have e5: "emits ?P ?w3 w'" by auto
    have "since w w' = since w ?w3 @ since ?w3 w'"
      by (rule since_trans [OF e3 e5])
    with s3 decrypt_qops_none [OF e5] Some show ?thesis by simp
  qed
  with u p show ?thesis by simp
qed

lemma stub_unwrap:
  "auth_sspi_client_unwrap stub_env world1 client2 (Some ''dG9r'') =
     (\<lparr>log = [Ev_CryptStringToBinaryA (Some ''dG9r''), Ev_malloc 3 3,
              Ev_CryptStringToBinaryA (Some ''dG9r''), Ev_DecryptMessage 7 ''tok'' 0,
              Ev_CryptBinaryToStringA ''tok'', Ev_malloc 4 5, Ev_CryptBinaryToStringA ''tok'',
              Ev_free 3],
       allocs = 4\<rparr>,
      client2\<lparr>response := Some (4, ''dG9r'')\<rparr>,
      \<lparr>code = AUTH_GSS_COMPLETE, message = None\<rparr>)"
  by (simp add: auth_sspi_client_unwrap_def stub_decode_tok client2_def client0_def world1_def)
     (simp add: stub_defs base64_encode_def malloc_def emit_def free_def sspi_success_result_def
        Let_def)

theorem client_unwrap_qop_at_call_witness:
  "haveCtx client2
   \<and> (case auth_sspi_client_unwrap stub_env world1 client2 (Some ''dG9r'') of
        (w', st', r) \<Rightarrow> decrypt_qops (since world1 w') = [0])
   \<and> haveCtx (client1\<lparr>qop := 0\<rparr>)
   \<and> (case auth_sspi_client_unwrap stub_env world1 (client1\<lparr>qop := 0\<rparr>) (Some ''dG9r'') of
        (w', st', r) \<Rightarrow> decrypt_qops (since world1 w') = [SECQOP_WRAP_NO_ENCRYPT])"
proof -
  have h: "haveCtx client2" "haveCtx (client1\<lparr>qop := 0\<rparr>)"
    by (simp_all add: client2_def client1_def client0_def)
  have v: "response client2 = None" "qop client2 = 0" "response client1 \<noteq> None"
    by (simp_all add: client2_def client1_def client0_def)
  have d: "fst (base64_decode stub_env (Some ''dG9r'') world1) = Some (3, ''tok'')"
    by (simp add: stub_decode_tok world1_def)
  from client_unwrap_qop_at_call
      [OF h(1), where e = stub_env and w = world1 and challenge = "Some ''dG9r''"]
    client_unwrap_qop_at_call
      [OF h(2), where e = stub_env and w = world1 and challenge = "Some ''dG9r''"] h
  show ?thesis by (simp add: d v)
qed

theorem client_unwrap_keeps_qop_without_pending_token:
  "haveCtx client2
   \<and> response client2 = None
   \<and> (case auth_sspi_client_unwrap stub_env world1 client2 (Some ''dG9r'') of
        (w', st', r) \<Rightarrow> decrypt_qops (since world1 w') = [0])
   \<and> \<not> (case auth_sspi_client_unwrap stub_env world1 client2 (Some ''dG9r'') of
        (w', st', r) \<Rightarrow>
          list_all (\<lambda>q. q = SECQOP_WRAP_NO_ENCRYPT) (decrypt_qops (since world1 w')))"
  by (simp only: stub_unwrap)
     (simp add: since_def world1_def decrypt_qops_def SECQOP_WRAP_NO_ENCRYPT_def client2_def
        client0_def)

subsection \<open>Client wrap: the plaintext in authorization mode\<close>

lemma protect_plaintexts_append [simp]:
  "protect_plaintexts (xs @ ys) = protect_plaintexts xs @ protect_plaintexts ys"
  by (simp add: protect_plaintexts_def)

lemma protect_plaintexts_none:
  "emits (\<lambda>ev. plaintext_seen ev = []) w w' \<Longrightarrow> protect_plaintexts (since w w') = []"
  using emits_since [of "\<lambda>ev. plaintext_seen ev = []" w w']
  by (simp add: protect_plaintexts_def list_all_iff)

lemma length_fresh_bytes [simp]: "length (fresh_bytes e n) = n"
  by (simp add: fresh_bytes_def)











end
